theory Spec2Isabelle
  imports Complex_Main "HOL-Library.Log_Nat"
begin

section \<open>Flappy Birb: the state-transition core\<close>

text \<open>
  The repository holds several revisions of one file. Two of them are embedded here:
  \<^item> \<^verbatim>\<open>src/main.ts\<close>: reducers \<^verbatim>\<open>flap$\<close>, \<^verbatim>\<open>tick$\<close> and the ghost
    reducers of \<^verbatim>\<open>makeGhostReducers\<close>; the tick reads \<^verbatim>\<open>performance.now()\<close>;
  \<^item> the pause-capable revision (second file of \<^verbatim>\<open>part_001\<close>): reducers
    \<^verbatim>\<open>flap$\<close>, \<^verbatim>\<open>tick$\<close>, \<^verbatim>\<open>pauseState$\<close>; the tick adds
    \<^verbatim>\<open>TICK_RATE_MS\<close> to the elapsed time and computes the ghost position itself.
  The bodies of the two \<^verbatim>\<open>tick$\<close> reducers agree line by line except for the
  guard, the definition of \<^verbatim>\<open>currentTime\<close> and the ghost position, so the common
  part is one definition, \<open>tickBody\<close>, with \<^verbatim>\<open>currentTime\<close> as a parameter.

  A JavaScript \<^verbatim>\<open>number\<close> is modelled as a \<^typ>\<open>real\<close> (no NaN, no infinity),
  the score (an array length) as \<^typ>\<open>nat\<close>, the lives as \<^typ>\<open>int\<close>. An optional field
  is an \<^typ>\<open>'a option\<close>, \<^verbatim>\<open>undefined\<close> being \<^term>\<open>None\<close>.
  Positions, velocities and times are small, and their arithmetic is taken as exact (a
  double differs from it by a relative error of at most \<open>2^-53\<close> per operation). The
  generator multiplies integers past \<open>2^53\<close>, where doubles lose whole units: there
  the rounding of each operation to the nearest double is part of the model
  (\<open>toDouble\<close>).
\<close>

subsection \<open>Constants\<close>

definition CANVAS_WIDTH :: real where [simp]: "CANVAS_WIDTH = 600"
definition CANVAS_HEIGHT :: real where [simp]: "CANVAS_HEIGHT = 400"
definition Birb_WIDTH :: real where [simp]: "Birb_WIDTH = 42"
definition Birb_HEIGHT :: real where [simp]: "Birb_HEIGHT = 30"
definition Birb_GRAVITY :: real where [simp]: "Birb_GRAVITY = 6 / 10"
definition PIPE_WIDTH :: real where [simp]: "PIPE_WIDTH = 50"
definition TICK_RATE_MS :: real where [simp]: "TICK_RATE_MS = 16"
definition PIPE_TRAVEL_MS :: real where [simp]: "PIPE_TRAVEL_MS = 3000"
definition Bounce_SPREAD :: real where [simp]: "Bounce_SPREAD = 4"
definition Bounce_MEAN :: real where [simp]: "Bounce_MEAN = 8"
definition Bounce_SEED :: real where [simp]: "Bounce_SEED = 1234"

subsection \<open>Data\<close>

record pipe =
  gapY :: real
  gapHeight :: real
  time :: real
  age :: real
  xpos :: real
  prevXpos :: real
  birdPassing :: bool
  prevPassing :: bool
  passed :: bool
  gapTop :: real
  gapBottom :: real

text \<open>The state of \<^verbatim>\<open>src/main.ts\<close>; the pause-capable revision extends it by \<open>paused\<close>.\<close>

record state =
  birbPosition :: real
  birbVelocity :: real
  birbLives :: int
  timeStart :: real
  elapsedTime :: real
  score :: nat
  gameOver :: bool
  pipeRead :: "pipe list option"
  pipeRendering :: "pipe list option"
  pipeHistory :: "pipe list option"
  pipePassing :: "pipe option"
  rngSeed :: real
  invinciblePipeTime :: "real option"
  ghostBirbPos :: "real option"

record pstate = state +
  paused :: bool

text \<open>A sample \<^verbatim>\<open>{ t, y }\<close> of a recorded path.\<close>

record point =
  pt_t :: real
  pt_y :: real

text \<open>
  \<^verbatim>\<open>initialState\<close> of \<^verbatim>\<open>src/main.ts\<close>; \<open>t0\<close> is the reading of
  \<^verbatim>\<open>performance.now()\<close> taken when the run's \<^verbatim>\<open>scan\<close> is seeded.
\<close>

definition initialState :: "real \<Rightarrow> state" where
  "initialState t0 =
     \<lparr> birbPosition = 200, birbVelocity = 0, birbLives = 3, timeStart = t0,
       elapsedTime = 0, score = 0, gameOver = False, pipeRead = None,
       pipeRendering = None, pipeHistory = None, pipePassing = None,
       rngSeed = Bounce_SEED, invinciblePipeTime = None, ghostBirbPos = None \<rparr>"

text \<open>
  \<^verbatim>\<open>initialState\<close> of the pause-capable revision: both \<open>timeStart\<close> and
  \<open>rngSeed\<close> are readings of \<^verbatim>\<open>performance.now()\<close>.
\<close>

definition initialStateP :: "real \<Rightarrow> real \<Rightarrow> pstate" where
  "initialStateP t0 seed0 =
     \<lparr> birbPosition = 200, birbVelocity = 0, birbLives = 3, timeStart = t0,
       elapsedTime = 0, score = 0, gameOver = False, pipeRead = None,
       pipeRendering = None, pipeHistory = None, pipePassing = None,
       rngSeed = seed0, invinciblePipeTime = None, ghostBirbPos = None,
       paused = False \<rparr>"

subsection \<open>The pseudo-random generator (class RNG)\<close>

definition RNG_m :: real where [simp]: "RNG_m = 2147483648"
definition RNG_a :: real where [simp]: "RNG_a = 1103515245"
definition RNG_c :: real where [simp]: "RNG_c = 12345"

text \<open>
  The operator \<^verbatim>\<open>%\<close> of JavaScript: the remainder of the division truncated towards
  zero, so the result has the sign of the dividend.
\<close>

definition js_rem :: "real \<Rightarrow> real \<Rightarrow> real" where
  "js_rem x m =
     x - m * of_int (if 0 \<le> x / m then \<lfloor>x / m\<rfloor> else \<lceil>x / m\<rceil>)"

text \<open>
  The double nearest to a real, ties to the even significand: a double (in the normal
  range) is \<open>n * 2^e\<close> with an integer \<open>n\<close> of 53 bits, so with
  \<open>e = floor (log2 |x|) - 52\<close> the quotient \<open>x / 2^e\<close> lies in \<open>[2^52, 2^53)\<close> and is
  rounded to an integer. \<open>ilog2 x\<close> is \<open>floor (log2 |x|)\<close>, computed from the bit length of
  an integer (\<open>ilog2_bounds\<close>); \<open>pow2 e\<close> is \<open>2^e\<close> for an integer \<open>e\<close>.
\<close>

definition ilog2 :: "real \<Rightarrow> int" where
  "ilog2 x = (if 1 \<le> \<bar>x\<bar> then bitlen \<lfloor>\<bar>x\<bar>\<rfloor> - 1 else - bitlen (\<lceil>1 / \<bar>x\<bar>\<rceil> - 1))"

definition pow2 :: "int \<Rightarrow> real" where
  "pow2 e = (if 0 \<le> e then 2 ^ nat e else 1 / 2 ^ nat (- e))"

definition roundTiesToEven :: "real \<Rightarrow> int" where
  "roundTiesToEven y =
     (let f = \<lfloor>y\<rfloor>
      in if y - of_int f < 1 / 2 then f
         else if 1 / 2 < y - of_int f then f + 1
         else if even f then f else f + 1)"

definition toDouble :: "real \<Rightarrow> real" where
  "toDouble x =
     (if x = 0 then 0
      else let e = ilog2 x - 52 in of_int (roundTiesToEven (x / pow2 e)) * pow2 e)"

text \<open>
  \<^verbatim>\<open>(RNG.a * seed + RNG.c) % RNG.m\<close>: the product and the sum are each rounded to
  a double; the remainder of two doubles is exact.
\<close>

definition RNG_hash :: "real \<Rightarrow> real" where
  "RNG_hash seed = js_rem (toDouble (toDouble (RNG_a * seed) + RNG_c)) RNG_m"

definition RNG_scale :: "real \<Rightarrow> real" where
  "RNG_scale hash = (2 * hash) / (RNG_m - 1) - 1"

subsection \<open>Reading the pipe schedule\<close>

text \<open>
  A row of the CSV file after \<^verbatim>\<open>Number(...)\<close>: gap centre and gap height as
  fractions of the canvas height, and the spawn time in seconds.
\<close>

type_synonym row = "real \<times> real \<times> real"

definition mkPipe :: "row \<Rightarrow> pipe" where
  "mkPipe r =
     (case r of (gapYf, gapHf, tsec) \<Rightarrow>
        let gy = gapYf * CANVAS_HEIGHT;
            gh = gapHf * CANVAS_HEIGHT
        in \<lparr> gapY = gapYf, gapHeight = gapHf, time = tsec * 1000, age = 0,
             xpos = CANVAS_WIDTH, prevXpos = CANVAS_WIDTH, birdPassing = False,
             prevPassing = False, passed = False,
             gapTop = gy - gh / 2, gapBottom = gy + gh / 2 - Birb_HEIGHT \<rparr>)"

definition pipeProperties :: "row list \<Rightarrow> pipe list" where
  "pipeProperties rows = map mkPipe rows"

subsection \<open>The helpers of the tick\<close>

definition travel :: real where [simp]: "travel = PIPE_TRAVEL_MS"
definition distance :: real where [simp]: "distance = CANVAS_WIDTH + PIPE_WIDTH"
definition BIRB_X :: real where [simp]: "BIRB_X = CANVAS_WIDTH * (3 / 10) - Birb_WIDTH / 2"
definition BIRB_REAR :: real where [simp]: "BIRB_REAR = BIRB_X + Birb_WIDTH"
definition floorY :: real where [simp]: "floorY = CANVAS_HEIGHT - Birb_HEIGHT"

definition clamp01 :: "real \<Rightarrow> real" where
  "clamp01 x = (if x \<le> 0 then 0 else if x \<ge> 1 then 1 else x)"

definition pipeXposAtAge :: "real \<Rightarrow> real" where
  "pipeXposAtAge a = (let prog = clamp01 (a / travel) in CANVAS_WIDTH - distance * prog)"

definition clampToPipeGap :: "pipe \<Rightarrow> real \<Rightarrow> real" where
  "clampToPipeGap p y =
     (if y \<le> gapTop p then gapTop p else if y \<ge> gapBottom p then gapBottom p else y)"

definition outsideGapY :: "pipe \<Rightarrow> real \<Rightarrow> bool" where
  "outsideGapY p y = (y \<le> gapTop p \<or> y \<ge> gapBottom p)"

definition hitTopSide :: "pipe \<Rightarrow> real \<Rightarrow> bool" where
  "hitTopSide p y = (y \<le> gapTop p)"

text \<open>The function mapped over the pipe queue: one pipe's fields at \<open>currentTime\<close>.\<close>

definition updatePipe :: "real \<Rightarrow> pipe \<Rightarrow> pipe" where
  "updatePipe currentTime p =
     (let age' = currentTime - time p;
          newX = pipeXposAtAge age';
          prevXpos' = xpos p;
          xpos' = newX;
          prevPassing' = birdPassing p;
          birdPassing' =
            (if xpos' \<le> BIRB_REAR \<and> xpos' + PIPE_WIDTH \<ge> BIRB_X then True else False);
          passed' = (if BIRB_X > xpos' + PIPE_WIDTH then True else passed p)
      in p\<lparr> age := age', prevXpos := prevXpos', xpos := xpos',
             prevPassing := prevPassing', passed := passed',
             birdPassing := birdPassing' \<rparr>)"

subsection \<open>The constants computed by a tick\<close>

text \<open>
  Each \<^verbatim>\<open>const\<close> of the reducer is a definition of the same name, taking what it
  reads: the parsed schedule \<open>pp\<close> (\<^verbatim>\<open>pipeProperties\<close>), \<open>ct\<close>
  (\<^verbatim>\<open>currentTime\<close>) and the previous state.
\<close>

definition updatedBirbVelocity :: "'a state_scheme \<Rightarrow> real" where
  "updatedBirbVelocity s = birbVelocity s + Birb_GRAVITY"

definition newBirbPositionUnbound :: "'a state_scheme \<Rightarrow> real" where
  "newBirbPositionUnbound s = birbPosition s + updatedBirbVelocity s"

definition pipeQueue :: "pipe list \<Rightarrow> 'a state_scheme \<Rightarrow> pipe list" where
  "pipeQueue pp s = (case pipeRead s of None \<Rightarrow> pp | Some q \<Rightarrow> q)"

definition pipeQueueUpdated :: "pipe list \<Rightarrow> real \<Rightarrow> 'a state_scheme \<Rightarrow> pipe list" where
  "pipeQueueUpdated pp ct s = map (updatePipe ct) (pipeQueue pp s)"

definition pipeQueuePass :: "pipe list \<Rightarrow> real \<Rightarrow> 'a state_scheme \<Rightarrow> pipe list" where
  "pipeQueuePass pp ct s = filter (\<lambda>p. time p \<le> ct) (pipeQueueUpdated pp ct s)"

definition nextPipe :: "pipe list \<Rightarrow> real \<Rightarrow> 'a state_scheme \<Rightarrow> pipe list" where
  "nextPipe pp ct s = filter (\<lambda>p. age p \<ge> 0 \<and> age p \<le> travel) (pipeQueuePass pp ct s)"

definition currentPipePassing :: "pipe list \<Rightarrow> real \<Rightarrow> 'a state_scheme \<Rightarrow> pipe option" where
  "currentPipePassing pp ct s = find (\<lambda>p. birdPassing p = True) (pipeQueuePass pp ct s)"

definition updatedBirbPosition :: "'a state_scheme \<Rightarrow> real" where
  "updatedBirbPosition s =
     (if newBirbPositionUnbound s \<le> 0 then 0
      else if newBirbPositionUnbound s \<ge> floorY then floorY
      else newBirbPositionUnbound s)"

definition hitCanvas :: "'a state_scheme \<Rightarrow> bool" where
  "hitCanvas s =
     (if updatedBirbPosition s = floorY then True
      else if updatedBirbPosition s = 0 then True
      else False)"

definition overlapping :: "pipe list \<Rightarrow> real \<Rightarrow> 'a state_scheme \<Rightarrow> pipe option" where
  "overlapping pp ct s = currentPipePassing pp ct s"

definition firstHitThisPipe :: "pipe list \<Rightarrow> real \<Rightarrow> 'a state_scheme \<Rightarrow> bool" where
  "firstHitThisPipe pp ct s =
     (case overlapping pp ct s of
        None \<Rightarrow> False
      | Some p \<Rightarrow>
          outsideGapY p (updatedBirbPosition s) \<and> invinciblePipeTime s \<noteq> Some (time p))"

definition keepPiercing :: "pipe list \<Rightarrow> real \<Rightarrow> 'a state_scheme \<Rightarrow> bool" where
  "keepPiercing pp ct s =
     (case overlapping pp ct s of
        None \<Rightarrow> False
      | Some p \<Rightarrow> invinciblePipeTime s \<noteq> None \<and> invinciblePipeTime s = Some (time p))"

definition isSideEntry :: "pipe list \<Rightarrow> real \<Rightarrow> 'a state_scheme \<Rightarrow> bool" where
  "isSideEntry pp ct s =
     (case overlapping pp ct s of
        None \<Rightarrow> False
      | Some p \<Rightarrow> firstHitThisPipe pp ct s \<and> \<not> prevPassing p \<and> birdPassing p)"

definition shouldClamp :: "pipe list \<Rightarrow> real \<Rightarrow> 'a state_scheme \<Rightarrow> bool" where
  "shouldClamp pp ct s =
     (firstHitThisPipe pp ct s \<and> overlapping pp ct s \<noteq> None \<and> \<not> isSideEntry pp ct s)"

definition newBirbPosition :: "pipe list \<Rightarrow> real \<Rightarrow> 'a state_scheme \<Rightarrow> real" where
  "newBirbPosition pp ct s =
     (if shouldClamp pp ct s
      then (case overlapping pp ct s of
              Some p \<Rightarrow> clampToPipeGap p (updatedBirbPosition s)
            | None \<Rightarrow> updatedBirbPosition s)
      else updatedBirbPosition s)"

definition hitTopSidePipe :: "pipe list \<Rightarrow> real \<Rightarrow> 'a state_scheme \<Rightarrow> bool" where
  "hitTopSidePipe pp ct s =
     (case overlapping pp ct s of
        None \<Rightarrow> False
      | Some p \<Rightarrow> firstHitThisPipe pp ct s \<and> hitTopSide p (updatedBirbPosition s))"

definition hitCanvasTop :: "'a state_scheme \<Rightarrow> bool" where
  "hitCanvasTop s = (updatedBirbPosition s = 0)"

definition collideFrame :: "pipe list \<Rightarrow> real \<Rightarrow> 'a state_scheme \<Rightarrow> bool" where
  "collideFrame pp ct s = (firstHitThisPipe pp ct s \<or> hitCanvas s)"

definition seed1 :: "pipe list \<Rightarrow> real \<Rightarrow> 'a state_scheme \<Rightarrow> real" where
  "seed1 pp ct s = (if collideFrame pp ct s then RNG_hash (rngSeed s) else rngSeed s)"

definition bounce :: "pipe list \<Rightarrow> real \<Rightarrow> 'a state_scheme \<Rightarrow> real" where
  "bounce pp ct s =
     (let r = (if collideFrame pp ct s then RNG_scale (seed1 pp ct s) else 0)
      in if collideFrame pp ct s then Bounce_MEAN + Bounce_SPREAD * r else 0)"

definition newBirbVelocity :: "pipe list \<Rightarrow> real \<Rightarrow> 'a state_scheme \<Rightarrow> real" where
  "newBirbVelocity pp ct s =
     (if \<not> collideFrame pp ct s then updatedBirbVelocity s
      else if hitCanvasTop s \<or> hitTopSidePipe pp ct s then bounce pp ct s
      else - bounce pp ct s)"

definition newBirbLives :: "pipe list \<Rightarrow> real \<Rightarrow> 'a state_scheme \<Rightarrow> int" where
  "newBirbLives pp ct s =
     (if firstHitThisPipe pp ct s \<or> hitCanvas s
      then (if birbLives s - 1 \<le> 0 then 0 else birbLives s - 1)
      else birbLives s)"

definition invinciblePipeTime2 :: "pipe list \<Rightarrow> real \<Rightarrow> 'a state_scheme \<Rightarrow> real option" where
  "invinciblePipeTime2 pp ct s =
     (if firstHitThisPipe pp ct s \<and> overlapping pp ct s \<noteq> None
      then map_option time (overlapping pp ct s)
      else if keepPiercing pp ct s then invinciblePipeTime s
      else None)"

definition scoreUpdate :: "pipe list \<Rightarrow> real \<Rightarrow> 'a state_scheme \<Rightarrow> nat" where
  "scoreUpdate pp ct s = length (filter (\<lambda>p. passed p = True) (pipeQueuePass pp ct s))"

definition newGameOver :: "pipe list \<Rightarrow> real \<Rightarrow> 'a state_scheme \<Rightarrow> bool" where
  "newGameOver pp ct s = (if newBirbLives pp ct s = 0 then True else False)"

definition rngSeed2 :: "pipe list \<Rightarrow> real \<Rightarrow> 'a state_scheme \<Rightarrow> real" where
  "rngSeed2 pp ct s = (if collideFrame pp ct s then seed1 pp ct s else rngSeed s)"

text \<open>The object returned by a tick that is not stopped by its guard.\<close>

definition tickBody :: "pipe list \<Rightarrow> real \<Rightarrow> 'a state_scheme \<Rightarrow> 'a state_scheme" where
  "tickBody pp ct s =
     s\<lparr> birbPosition := newBirbPosition pp ct s,
        birbVelocity := newBirbVelocity pp ct s,
        birbLives := newBirbLives pp ct s,
        elapsedTime := ct,
        score := scoreUpdate pp ct s,
        gameOver := newGameOver pp ct s,
        pipeRead := Some (pipeQueueUpdated pp ct s),
        pipeRendering := Some (nextPipe pp ct s),
        rngSeed := rngSeed2 pp ct s,
        invinciblePipeTime := invinciblePipeTime2 pp ct s \<rparr>"

subsection \<open>The reducers of src/main.ts\<close>

text \<open>
  The reducer of \<^verbatim>\<open>tick$\<close>; \<open>now\<close> is the value \<^verbatim>\<open>performance.now()\<close> returns
  when the reducer runs.
\<close>

definition tick :: "pipe list \<Rightarrow> real \<Rightarrow> 'a state_scheme \<Rightarrow> 'a state_scheme" where
  "tick pp now s =
     (if gameOver s \<or> score s = 20 then s
      else tickBody pp (now - timeStart s) s)"

definition flap :: "'a state_scheme \<Rightarrow> 'a state_scheme" where
  "flap s = (if gameOver s \<or> score s = 20 then s else s\<lparr> birbVelocity := - 7 \<rparr>)"

text \<open>\<^verbatim>\<open>lastIdxLE\<close>: a \<^verbatim>\<open>reduce\<close> over the path with the element's index.\<close>

definition lastIdxLE :: "point list \<Rightarrow> real \<Rightarrow> nat" where
  "lastIdxLE path t =
     foldl (\<lambda>best (i, pt). if pt_t pt \<le> t then i else best) 0 (enumerate 0 path)"

text \<open>
  The reducer \<^verbatim>\<open>makeGhostReducers\<close> emits for the time \<open>t\<close>; the path is not empty
  there (an empty path gives no reducer at all).
\<close>

definition ghostReducer :: "point list \<Rightarrow> real \<Rightarrow> 'a state_scheme \<Rightarrow> 'a state_scheme" where
  "ghostReducer path t s =
     (let totalTimeTravelled = pt_t (path ! (length path - 1));
          inside = (t \<le> totalTimeTravelled);
          y = (if inside then Some (pt_y (path ! lastIdxLE path t)) else None)
      in if inside then s\<lparr> ghostBirbPos := y \<rparr> else s\<lparr> ghostBirbPos := None \<rparr>)"

text \<open>
  What the merged stream \<^verbatim>\<open>reducers$\<close> of a run delivers: a tick with its clock
  reading, a flap, or a ghost reducer with its time. With no recorded path (\<open>[]\<close>) the
  ghost stream is \<^verbatim>\<open>EMPTY\<close>: there is no ghost reducer to apply. \<open>run\<close> is the
  \<^verbatim>\<open>scan\<close>; it goes on after a terminal state, where the source's
  \<^verbatim>\<open>takeWhile\<close> ends the run, so it covers every run of the source.
\<close>

datatype event = Tick real | Flap | Ghost real

fun applyEvent :: "pipe list \<Rightarrow> point list \<Rightarrow> 'a state_scheme \<Rightarrow> event \<Rightarrow> 'a state_scheme" where
  "applyEvent pp path s (Tick now) = tick pp now s"
| "applyEvent pp path s Flap = flap s"
| "applyEvent pp path s (Ghost t) = (if path = [] then s else ghostReducer path t s)"

definition run :: "pipe list \<Rightarrow> point list \<Rightarrow> 'a state_scheme \<Rightarrow> event list \<Rightarrow> 'a state_scheme" where
  "run pp path s evs = foldl (applyEvent pp path) s evs"

text \<open>
  The run as the source composes it: \<^verbatim>\<open>scan\<close> applies a reducer and emits the new
  state, and \<^verbatim>\<open>takeWhile(s => !(s.gameOver || s.score === 20), true)\<close> passes that
  state on and, when it is terminal, completes the run, which unsubscribes every reducer
  stream. \<open>runT\<close> is the state of the run after the events: those that come after a
  terminal state find no run to act on.
\<close>

fun runT :: "pipe list \<Rightarrow> point list \<Rightarrow> 'a state_scheme \<Rightarrow> event list \<Rightarrow> 'a state_scheme" where
  "runT pp path s [] = s"
| "runT pp path s (ev # evs) =
     (let s' = applyEvent pp path s ev
      in if gameOver s' \<or> score s' = 20 then s' else runT pp path s' evs)"

text \<open>
  The clock readings of the ticks of an event sequence never go back
  (\<^verbatim>\<open>performance.now()\<close> is monotonic) and start at \<open>lo\<close> or later.
\<close>

fun monotoneClock :: "real \<Rightarrow> event list \<Rightarrow> bool" where
  "monotoneClock lo [] = True"
| "monotoneClock lo (Tick now # es) = (lo \<le> now \<and> monotoneClock now es)"
| "monotoneClock lo (Flap # es) = monotoneClock lo es"
| "monotoneClock lo (Ghost t # es) = monotoneClock lo es"

subsection \<open>The reducers of the pause-capable revision\<close>

text \<open>
  The ghost position a tick computes from \<^verbatim>\<open>prevPathRef.value\<close>, the path of the
  previous run (\<^term>\<open>None\<close> before any run has ended).
\<close>

definition ghostBirbPosP :: "point list option \<Rightarrow> real \<Rightarrow> 'a state_scheme \<Rightarrow> real option" where
  "ghostBirbPosP ghostPath ct s =
     (case ghostPath of
        None \<Rightarrow> ghostBirbPos s
      | Some g \<Rightarrow>
          if g = [] then ghostBirbPos s
          else if ct \<le> pt_t (g ! (length g - 1))
          then Some (pt_y (g ! lastIdxLE g ct))
          else None)"

definition tickP :: "pipe list \<Rightarrow> point list option \<Rightarrow> pstate \<Rightarrow> pstate" where
  "tickP pp ghostPath s =
     (if gameOver s \<or> score s = 20 \<or> paused s then s
      else (let currentTime = elapsedTime s + TICK_RATE_MS
            in (tickBody pp currentTime s)
                 \<lparr> ghostBirbPos := ghostBirbPosP ghostPath currentTime s \<rparr>))"

text \<open>The reducer \<^verbatim>\<open>pauseState$\<close> emits for the boolean \<open>b\<close> of \<^verbatim>\<open>pause$\<close>.\<close>

definition pauseState :: "bool \<Rightarrow> pstate \<Rightarrow> pstate" where
  "pauseState b s = s\<lparr> paused := b \<rparr>"

text \<open>
  A run of the pause-capable revision. \<^verbatim>\<open>pause$\<close> is subscribed twice, by
  \<^verbatim>\<open>pauseState$\<close> and by \<^verbatim>\<open>gatedGame$\<close>; each subscription has the accumulator
  of its own \<^verbatim>\<open>scan\<close>, starting at \<^verbatim>\<open>false\<close> and negated by each press of P.
  \<^verbatim>\<open>gatedGame$\<close> switches to \<^verbatim>\<open>EMPTY\<close> while its accumulator is true, so
  neither \<^verbatim>\<open>flap$\<close> nor \<^verbatim>\<open>tick$\<close> is subscribed then.
\<close>

record prun =
  accState :: bool
  accGate :: bool
  st :: pstate

datatype input = KeyP | KeySpace | Clock

fun stepP :: "pipe list \<Rightarrow> point list option \<Rightarrow> prun \<Rightarrow> input \<Rightarrow> prun" where
  "stepP pp ghostPath r KeyP =
     r\<lparr> accState := \<not> accState r, accGate := \<not> accGate r,
        st := pauseState (\<not> accState r) (st r) \<rparr>"
| "stepP pp ghostPath r KeySpace =
     (if accGate r then r else r\<lparr> st := flap (st r) \<rparr>)"
| "stepP pp ghostPath r Clock =
     (if accGate r then r else r\<lparr> st := tickP pp ghostPath (st r) \<rparr>)"

text \<open>
  The start of a run: both subscriptions of \<^verbatim>\<open>pause$\<close> emit \<^verbatim>\<open>false\<close>
  (\<^verbatim>\<open>startWith\<close>), and the reducer of \<^verbatim>\<open>pauseState$\<close> is applied to the seed.
\<close>

definition initialRun :: "real \<Rightarrow> real \<Rightarrow> prun" where
  "initialRun t0 seed0 =
     \<lparr> accState = False, accGate = False, st = pauseState False (initialStateP t0 seed0) \<rparr>"

definition runP :: "pipe list \<Rightarrow> point list option \<Rightarrow> prun \<Rightarrow> input list \<Rightarrow> prun" where
  "runP pp ghostPath r ins = foldl (stepP pp ghostPath) r ins"

text \<open>The same run with its \<^verbatim>\<open>takeWhile\<close>, as \<open>runT\<close> above.\<close>

fun runPT :: "pipe list \<Rightarrow> point list option \<Rightarrow> prun \<Rightarrow> input list \<Rightarrow> prun" where
  "runPT pp ghostPath r [] = r"
| "runPT pp ghostPath r (i # ins) =
     (let r' = stepP pp ghostPath r i
      in if gameOver (st r') \<or> score (st r') = 20 then r' else runPT pp ghostPath r' ins)"

subsection \<open>Invariant of the score\<close>

text \<open>
  The score of a state is the number of pipes of its queue that have spawned by the
  elapsed time and carry \<open>passed\<close>: what the last tick counted. It holds of the initial
  state (score 0, no pipe passed).
\<close>

definition scoreInv :: "pipe list \<Rightarrow> 'a state_scheme \<Rightarrow> bool" where
  "scoreInv pp s =
     (score s = length (filter (\<lambda>p. time p \<le> elapsedTime s \<and> passed p) (pipeQueue pp s)))"

subsection \<open>Invariant of the pause gate\<close>

text \<open>Both accumulators of \<^verbatim>\<open>pause$\<close> agree with the \<open>paused\<close> field of the state.\<close>

definition gateInv :: "prun \<Rightarrow> bool" where
  "gateInv r = (accGate r = paused (st r) \<and> accState r = paused (st r))"

subsection \<open>Example states\<close>

text \<open>The recorded path of the ghost example.\<close>

definition examplePath :: "point list" where
  "examplePath =
     [\<lparr>pt_t = 0, pt_y = 200\<rparr>, \<lparr>pt_t = 16, pt_y = 195\<rparr>, \<lparr>pt_t = 32, pt_y = 190\<rparr>]"

text \<open>
  A schedule of three pipes, spawning at 0, 1 and 2 seconds, whose gap (from 340 to 350) is
  far below the bird, and runs of \<^verbatim>\<open>src/main.ts\<close> on it: one tick when the first
  pipe has reached the bird (a hit from the side); one tick for each of the first two pipes
  when it has reached the bird; and, with the ghost of the example path, one tick for each
  pipe when it has reached the bird (three hits: the run is lost).
\<close>

definition hitRows :: "row list" where
  "hitRows = [(9 / 10, 1 / 10, 0), (9 / 10, 1 / 10, 1), (9 / 10, 1 / 10, 2)]"

definition hitPipes :: "pipe list" where
  "hitPipes = pipeProperties hitRows"

definition afterFirstHit :: state where
  "afterFirstHit = run hitPipes [] (initialState 0) [Tick 1904]"

text \<open>
  A schedule of one pipe whose gap (from 190 to 202) the bird enters, and the run of
  \<^verbatim>\<open>src/main.ts\<close> with two ticks while the bird is inside that gap; at the next
  tick the bird has fallen out of the gap from the inside.
\<close>

definition gapRows :: "row list" where
  "gapRows = [(211 / 400, 21 / 200, 0)]"

definition gapPipes :: "pipe list" where
  "gapPipes = pipeProperties gapRows"

definition beforeGapHit :: state where
  "beforeGapHit = run gapPipes [] (initialState 0) [Tick 1904, Tick 1920]"


definition afterThirdHit :: state where
  "afterThirdHit =
     runT hitPipes examplePath (initialState 0) [Ghost 0, Tick 1904, Tick 2920, Tick 3920]"

text \<open>
  A run of the pause-capable revision with no pipe in which the player never flaps: the
  bird falls to the floor at the ticks 24, 40 and 54, and the run is lost there.
\<close>

definition fallInputs :: "input list" where
  "fallInputs = replicate 54 Clock"

definition fallenRun :: prun where
  "fallenRun = runPT [] None (initialRun 0 1234) fallInputs"

section \<open>Pipe position\<close>

lemma clamp01_mono: "x \<le> y \<Longrightarrow> clamp01 x \<le> clamp01 y"
  by (simp add: clamp01_def)

lemma pipeXposAtAge_mono: "a \<le> b \<Longrightarrow> pipeXposAtAge b \<le> pipeXposAtAge a"
proof -
  assume "a \<le> b"
  then have "a / travel \<le> b / travel"
    by (simp add: divide_right_mono)
  then have "clamp01 (a / travel) \<le> clamp01 (b / travel)"
    by (rule clamp01_mono)
  then show ?thesis
    by (simp add: pipeXposAtAge_def Let_def)
qed

lemma xpos_updatePipe: "xpos (updatePipe ct p) = pipeXposAtAge (ct - time p)"
  by (simp add: updatePipe_def Let_def)

text \<open>
  C10. A pipe with spawn time 0 is at \<open>canvasWidth\<close> (600) at age 0 and at
  \<open>canvasWidth - (canvasWidth + pipeWidth)\<close> (-50) at age \<open>travelDuration\<close> (3000), and its
  horizontal position does not increase as its age grows within \<open>[0, travelDuration]\<close>.
\<close>

theorem pipe_xpos_endpoints_and_monotone:
  "time p = 0 \<longrightarrow>
     xpos (updatePipe 0 p) = CANVAS_WIDTH \<and>
     xpos (updatePipe PIPE_TRAVEL_MS p) = CANVAS_WIDTH - (CANVAS_WIDTH + PIPE_WIDTH) \<and>
     xpos (updatePipe PIPE_TRAVEL_MS p) = - 50 \<and>
     (\<forall>a b. 0 \<le> a \<and> a \<le> b \<and> b \<le> PIPE_TRAVEL_MS \<longrightarrow>
            xpos (updatePipe b p) \<le> xpos (updatePipe a p))"
proof
  assume t: "time p = 0"
  have e0: "xpos (updatePipe 0 p) = CANVAS_WIDTH"
    using t by (simp add: xpos_updatePipe pipeXposAtAge_def clamp01_def)
  have e1: "xpos (updatePipe PIPE_TRAVEL_MS p) = CANVAS_WIDTH - (CANVAS_WIDTH + PIPE_WIDTH)"
    using t by (simp add: xpos_updatePipe pipeXposAtAge_def clamp01_def)
  have e2: "xpos (updatePipe PIPE_TRAVEL_MS p) = - 50"
    using e1 by simp
  have m: "\<forall>a b. 0 \<le> a \<and> a \<le> b \<and> b \<le> PIPE_TRAVEL_MS \<longrightarrow>
            xpos (updatePipe b p) \<le> xpos (updatePipe a p)"
    using t by (simp add: xpos_updatePipe pipeXposAtAge_mono)
  from e0 e1 e2 m
  show "xpos (updatePipe 0 p) = CANVAS_WIDTH \<and>
     xpos (updatePipe PIPE_TRAVEL_MS p) = CANVAS_WIDTH - (CANVAS_WIDTH + PIPE_WIDTH) \<and>
     xpos (updatePipe PIPE_TRAVEL_MS p) = - 50 \<and>
     (\<forall>a b. 0 \<le> a \<and> a \<le> b \<and> b \<le> PIPE_TRAVEL_MS \<longrightarrow>
            xpos (updatePipe b p) \<le> xpos (updatePipe a p))"
    by blast
qed

theorem pipe_xpos_endpoints_and_monotone_witness:
  "xpos (updatePipe 0 (mkPipe (1 / 2, 1 / 4, 0))) = 600 \<and>
   xpos (updatePipe 3000 (mkPipe (1 / 2, 1 / 4, 0))) = - 50 \<and>
   xpos (updatePipe 1500 (mkPipe (1 / 2, 1 / 4, 0))) = 275 \<and>
   xpos (updatePipe 3000 (mkPipe (1 / 2, 1 / 4, 0)))
     \<le> xpos (updatePipe 1500 (mkPipe (1 / 2, 1 / 4, 0)))"
proof -
  have t: "time (mkPipe (1 / 2, 1 / 4, 0)) = 0"
    by (simp add: mkPipe_def)
  have mid: "xpos (updatePipe 1500 (mkPipe (1 / 2, 1 / 4, 0))) = 275"
    by (simp add: xpos_updatePipe mkPipe_def pipeXposAtAge_def clamp01_def)
  from pipe_xpos_endpoints_and_monotone [of "mkPipe (1 / 2, 1 / 4, 0)"] t
  have all: "xpos (updatePipe 0 (mkPipe (1 / 2, 1 / 4, 0))) = CANVAS_WIDTH \<and>
     xpos (updatePipe PIPE_TRAVEL_MS (mkPipe (1 / 2, 1 / 4, 0))) = - 50 \<and>
     (\<forall>a b. 0 \<le> a \<and> a \<le> b \<and> b \<le> PIPE_TRAVEL_MS \<longrightarrow>
            xpos (updatePipe b (mkPipe (1 / 2, 1 / 4, 0)))
              \<le> xpos (updatePipe a (mkPipe (1 / 2, 1 / 4, 0))))"
    by blast
  then have "(0::real) \<le> 1500 \<and> (1500::real) \<le> 3000 \<and> (3000::real) \<le> PIPE_TRAVEL_MS \<longrightarrow>
      xpos (updatePipe 3000 (mkPipe (1 / 2, 1 / 4, 0)))
        \<le> xpos (updatePipe 1500 (mkPipe (1 / 2, 1 / 4, 0)))"
    by blast
  then have "xpos (updatePipe 3000 (mkPipe (1 / 2, 1 / 4, 0)))
     \<le> xpos (updatePipe 1500 (mkPipe (1 / 2, 1 / 4, 0)))"
    by simp
  with all mid show ?thesis by simp
qed

section \<open>The pseudo-random generator\<close>

subsection \<open>Rounding to a double\<close>

text \<open>The exponent is the one of the binade of \<open>x\<close>.\<close>

lemma pow2_pos: "0 < pow2 e"
  by (simp add: pow2_def)

lemma pow2_Suc: "pow2 (e + 1) = 2 * pow2 e"
proof (cases "0 \<le> e")
  case True
  then show ?thesis by (simp add: pow2_def nat_add_distrib)
next
  case False
  then have "nat (- e) = Suc (nat (- (e + 1)))" by simp
  with False show ?thesis
    by (auto simp add: pow2_def)
qed

lemma ilog2_bounds:
  assumes "x \<noteq> 0"
  shows "pow2 (ilog2 x) \<le> \<bar>x\<bar> \<and> \<bar>x\<bar> < pow2 (ilog2 x + 1)"
proof (cases "1 \<le> \<bar>x\<bar>")
  case True
  let ?n = "\<lfloor>\<bar>x\<bar>\<rfloor>"
  from True have n: "0 < ?n" by simp
  from bitlen_bounds [OF n]
  have lo: "2 ^ nat (bitlen ?n - 1) \<le> ?n" and hi: "?n < 2 ^ nat (bitlen ?n)" by simp_all
  from n have b1: "1 \<le> bitlen ?n" by (auto simp: bitlen_alt_def)
  have e: "ilog2 x = bitlen ?n - 1" using True by (simp add: ilog2_def)
  have "(2::real) ^ nat (bitlen ?n - 1) \<le> of_int ?n"
    using lo by (metis of_int_le_iff of_int_numeral of_int_power)
  also have "\<dots> \<le> \<bar>x\<bar>" by simp
  finally have l: "pow2 (ilog2 x) \<le> \<bar>x\<bar>"
    using b1 by (simp add: e pow2_def)
  from hi have "?n + 1 \<le> 2 ^ nat (bitlen ?n)" by simp
  then have "(of_int (?n + 1) :: real) \<le> 2 ^ nat (bitlen ?n)"
    by (metis of_int_le_iff of_int_numeral of_int_power)
  moreover have "\<bar>x\<bar> < of_int (?n + 1)" by linarith
  ultimately have "\<bar>x\<bar> < 2 ^ nat (bitlen ?n)" by linarith
  then have u: "\<bar>x\<bar> < pow2 (ilog2 x + 1)"
    using b1 by (simp add: e pow2_def)
  from l u show ?thesis ..
next
  case False
  let ?m = "\<lceil>1 / \<bar>x\<bar>\<rceil> - 1"
  let ?j = "bitlen ?m"
  from False assms have x: "0 < \<bar>x\<bar>" "\<bar>x\<bar> < 1" by simp_all
  then have y: "1 < 1 / \<bar>x\<bar>" by simp
  then have "1 < \<lceil>1 / \<bar>x\<bar>\<rceil>" by linarith
  then have m: "0 < ?m" by simp
  from bitlen_bounds [OF m]
  have lo: "2 ^ nat (?j - 1) \<le> ?m" and hi: "?m < 2 ^ nat ?j" by simp_all
  from m have j1: "1 \<le> ?j" by (auto simp: bitlen_alt_def)
  have e: "ilog2 x = - ?j" using False by (simp add: ilog2_def)
  have "of_int ?m < 1 / \<bar>x\<bar>" by linarith
  moreover have "(2::real) ^ nat (?j - 1) \<le> of_int ?m"
    using lo by (metis of_int_le_iff of_int_numeral of_int_power)
  ultimately have a: "(2::real) ^ nat (?j - 1) < 1 / \<bar>x\<bar>" by linarith
  from hi have "?m + 1 \<le> 2 ^ nat ?j" by simp
  then have "(of_int (?m + 1) :: real) \<le> 2 ^ nat ?j"
    by (metis of_int_le_iff of_int_numeral of_int_power)
  moreover have "1 / \<bar>x\<bar> \<le> of_int (?m + 1)" by simp
  ultimately have b: "1 / \<bar>x\<bar> \<le> 2 ^ nat ?j" by linarith
  from b x have l: "1 / 2 ^ nat ?j \<le> \<bar>x\<bar>"
    by (simp add: field_simps)
  from a x have u: "\<bar>x\<bar> < 1 / 2 ^ nat (?j - 1)"
    by (simp add: field_simps)
  have p1: "pow2 (ilog2 x) = 1 / 2 ^ nat ?j"
    using j1 by (simp add: e pow2_def)
  have p2: "pow2 (ilog2 x + 1) = 1 / 2 ^ nat (?j - 1)"
  proof (cases "?j = 1")
    case True
    then show ?thesis by (simp add: e pow2_def)
  next
    case False
    with j1 have "\<not> 0 \<le> - ?j + 1" by simp
    moreover have "nat (- (- ?j + 1)) = nat (?j - 1)" by simp
    ultimately show ?thesis unfolding e pow2_def by simp
  qed
  from l u show ?thesis by (simp add: p1 p2)
qed

lemma roundTiesToEven_of_int [simp]: "roundTiesToEven (of_int j) = j"
  by (simp add: roundTiesToEven_def)

lemma roundTiesToEven_nonneg: "0 \<le> y \<Longrightarrow> 0 \<le> roundTiesToEven y"
  by (auto simp add: roundTiesToEven_def Let_def)

lemma toDouble_of_int:
  "toDouble (of_int k) =
     (if bitlen \<bar>k\<bar> \<le> 53 then of_int k
      else of_int (roundTiesToEven (of_int k / 2 ^ nat (bitlen \<bar>k\<bar> - 53))
             * 2 ^ nat (bitlen \<bar>k\<bar> - 53)))"
proof (cases "k = 0")
  case True
  then show ?thesis by (simp add: toDouble_def)
next
  case False
  then have "1 \<le> \<bar>k\<bar>" by simp
  then have "(1::real) \<le> of_int \<bar>k\<bar>" by linarith
  then have a: "1 \<le> \<bar>(of_int k :: real)\<bar>" by simp
  have fl: "\<lfloor>\<bar>(of_int k :: real)\<bar>\<rfloor> = \<bar>k\<bar>"
    by (metis of_int_abs floor_of_int)
  have e: "ilog2 (of_int k) - 52 = bitlen \<bar>k\<bar> - 53"
    using a by (simp add: ilog2_def fl del: of_int_abs)
  show ?thesis
  proof (cases "bitlen \<bar>k\<bar> \<le> 53")
    case True
    let ?n = "nat (- (bitlen \<bar>k\<bar> - 53))"
    have p: "pow2 (bitlen \<bar>k\<bar> - 53) = 1 / 2 ^ ?n"
    proof (cases "bitlen \<bar>k\<bar> = 53")
      case True
      then show ?thesis by (simp add: pow2_def)
    next
      case False
      with True show ?thesis by (simp add: pow2_def)
    qed
    have "(of_int k :: real) / pow2 (bitlen \<bar>k\<bar> - 53) = of_int (k * 2 ^ ?n)"
      by (simp add: p)
    then have "roundTiesToEven (of_int k / pow2 (bitlen \<bar>k\<bar> - 53)) = k * 2 ^ ?n"
      by (simp only: roundTiesToEven_of_int)
    then have "toDouble (of_int k) = of_int (k * 2 ^ ?n) * (1 / 2 ^ ?n)"
      using False by (simp add: toDouble_def e Let_def p)
    also have "\<dots> = of_int k" by simp
    finally show ?thesis using True by simp
  next
    case False
    then have "pow2 (bitlen \<bar>k\<bar> - 53) = 2 ^ nat (bitlen \<bar>k\<bar> - 53)"
      by (simp add: pow2_def)
    with False \<open>k \<noteq> 0\<close> show ?thesis
      by (simp add: toDouble_def e Let_def)
  qed
qed

lemma toDouble_exact:
  assumes "\<bar>k\<bar> < 2 ^ 53"
  shows "toDouble (of_int k) = of_int k"
proof -
  have "bitlen \<bar>k\<bar> \<le> 53"
    using assms by (simp add: bitlen_le_iff_power)
  then show ?thesis by (simp add: toDouble_of_int)
qed

lemma toDouble_nonneg_int:
  assumes "0 \<le> k"
  shows "\<exists>j\<ge>0. toDouble (of_int k) = of_int j"
proof (cases "bitlen \<bar>k\<bar> \<le> 53")
  case True
  with assms show ?thesis by (auto simp add: toDouble_of_int)
next
  case False
  let ?n = "nat (bitlen \<bar>k\<bar> - 53)"
  have "0 \<le> roundTiesToEven (of_int k / 2 ^ ?n)"
    using assms by (intro roundTiesToEven_nonneg) simp
  then have "0 \<le> roundTiesToEven (of_int k / 2 ^ ?n) * 2 ^ ?n" by simp
  with False show ?thesis
    by (auto simp add: toDouble_of_int)
qed

subsection \<open>The hash of an integer seed\<close>

text \<open>On integers that are not negative, \<^verbatim>\<open>%\<close> is the modulus.\<close>

lemma js_rem_of_int:
  assumes "0 \<le> k" "0 < m"
  shows "js_rem (of_int k) (of_int m) = of_int (k mod m)"
proof -
  have "(0::real) \<le> of_int k / of_int m" using assms by simp
  moreover have "\<lfloor>(of_int k :: real) / of_int m\<rfloor> = k div m"
    by (simp add: floor_divide_of_int_eq)
  ultimately have "js_rem (of_int k) (of_int m) = of_int k - of_int m * of_int (k div m)"
    by (simp add: js_rem_def)
  also have "\<dots> = of_int (k - m * (k div m))" by simp
  also have "k - m * (k div m) = k mod m"
    by (simp add: minus_mult_div_eq_mod)
  finally show ?thesis .
qed

lemma RNG_hash_nonneg_int:
  assumes "0 \<le> seed"
  shows "\<exists>h. 0 \<le> h \<and> h < 2147483648 \<and> RNG_hash (of_int seed) = of_int h"
proof -
  have ea: "RNG_a * of_int seed = of_int (1103515245 * seed)" by simp
  from assms have "0 \<le> 1103515245 * seed" by simp
  from toDouble_nonneg_int [OF this]
  obtain p where p: "0 \<le> p" "toDouble (of_int (1103515245 * seed)) = of_int p"
    by blast
  have eb: "of_int p + RNG_c = (of_int (p + 12345) :: real)" by simp
  from p have "0 \<le> p + 12345" by simp
  from toDouble_nonneg_int [OF this]
  obtain q where q: "0 \<le> q" "toDouble (of_int (p + 12345)) = of_int q"
    by blast
  have em: "RNG_m = of_int 2147483648" by simp
  have "RNG_hash (of_int seed) = js_rem (of_int q) (of_int 2147483648)"
    unfolding RNG_hash_def ea p(2) eb q(2) em ..
  also have "\<dots> = of_int (q mod 2147483648)"
    using q(1) by (intro js_rem_of_int) simp_all
  finally have "RNG_hash (of_int seed) = of_int (q mod 2147483648)" .
  moreover have "0 \<le> q mod 2147483648" "q mod 2147483648 < 2147483648" by simp_all
  ultimately show ?thesis by blast
qed

lemma RNG_hash_exact:
  assumes "0 \<le> seed" "1103515245 * seed + 12345 < 2 ^ 53"
  shows "RNG_hash (of_int seed) = of_int ((1103515245 * seed + 12345) mod 2147483648)"
proof -
  have ea: "RNG_a * of_int seed = of_int (1103515245 * seed)" by simp
  from assms have "\<bar>1103515245 * seed\<bar> < 2 ^ 53" by simp
  then have a: "toDouble (of_int (1103515245 * seed)) = of_int (1103515245 * seed)"
    by (rule toDouble_exact)
  have eb: "of_int (1103515245 * seed) + RNG_c = (of_int (1103515245 * seed + 12345) :: real)"
    by simp
  from assms have "\<bar>1103515245 * seed + 12345\<bar> < 2 ^ 53" by simp
  then have b: "toDouble (of_int (1103515245 * seed + 12345)) = of_int (1103515245 * seed + 12345)"
    by (rule toDouble_exact)
  have em: "RNG_m = of_int 2147483648" by simp
  have "RNG_hash (of_int seed) = js_rem (of_int (1103515245 * seed + 12345)) (of_int 2147483648)"
    unfolding RNG_hash_def ea a eb b em ..
  also have "\<dots> = of_int ((1103515245 * seed + 12345) mod 2147483648)"
    using assms(1) by (intro js_rem_of_int) simp_all
  finally show ?thesis .
qed

lemma RNG_scale_hash_range_nonneg:
  assumes "0 \<le> seed"
  shows "- 1 \<le> RNG_scale (RNG_hash (of_int seed)) \<and> RNG_scale (RNG_hash (of_int seed)) \<le> 1"
proof -
  from RNG_hash_nonneg_int [OF assms] obtain h where
    h: "0 \<le> h" "h < 2147483648" "RNG_hash (of_int seed) = of_int h" by blast
  have r0: "(0::real) \<le> of_int h" using h(1) by simp
  have "h \<le> 2147483647" using h(2) by simp
  then have r1: "(of_int h :: real) \<le> 2147483647" by linarith
  show ?thesis
    unfolding h(3) RNG_scale_def using r0 r1 by simp
qed

text \<open>The first seeds of a run, and a negative seed (no run has one).\<close>

lemmas rng_eval = RNG_hash_def toDouble_def ilog2_def pow2_def roundTiesToEven_def js_rem_def
  compute_bitlen Let_def

lemma RNG_hash_chain:
  "RNG_hash 1234 = 233191843" "RNG_hash 233191843 = 128476320" "RNG_hash 128476320 = 85706848"
  by (simp_all add: rng_eval)

lemma RNG_hash_negative_seed:
  "RNG_hash (- 1) = - 1103502900" "RNG_scale (RNG_hash (- 1)) < - 1"
  by (simp_all add: rng_eval RNG_scale_def)

text \<open>
  At the seed 128476320 the product and the sum are past \<open>2^53\<close>, where doubles are 16
  apart: the product \<open>141775577741498400\<close> is a double, the sum
  \<open>141775577741510745\<close> is not and is rounded to \<open>141775577741510752\<close>.
\<close>

lemma RNG_hash_rounding:
  "toDouble (RNG_a * 128476320) = 141775577741498400"
  "toDouble (141775577741498400 + RNG_c) = 141775577741510752"
  "js_rem 141775577741510752 RNG_m = 85706848"
  "js_rem (RNG_a * 128476320 + RNG_c) RNG_m = 85706841"
  by (simp_all add: rng_eval)

section \<open>The ghost\<close>

text \<open>
  C9. For the recorded path \<open>[(0,200),(16,195),(32,190)]\<close> the ghost position at the time
  20 is 195, the position of the latest sample whose time is at most 20 (index 1), and at
  the time 50, past the last sample, there is no ghost position; both for the ghost reducer
  of \<^verbatim>\<open>src/main.ts\<close> and for the ghost position the tick of the pause-capable
  revision computes.
\<close>

theorem ghost_step_interpolation:
  "lastIdxLE [\<lparr>pt_t = 0, pt_y = 200\<rparr>, \<lparr>pt_t = 16, pt_y = 195\<rparr>, \<lparr>pt_t = 32, pt_y = 190\<rparr>] 20 = 1 \<and>
   ghostBirbPos (ghostReducer
      [\<lparr>pt_t = 0, pt_y = 200\<rparr>, \<lparr>pt_t = 16, pt_y = 195\<rparr>, \<lparr>pt_t = 32, pt_y = 190\<rparr>] 20 s) = Some 195 \<and>
   ghostBirbPos (ghostReducer
      [\<lparr>pt_t = 0, pt_y = 200\<rparr>, \<lparr>pt_t = 16, pt_y = 195\<rparr>, \<lparr>pt_t = 32, pt_y = 190\<rparr>] 50 s) = None \<and>
   ghostBirbPosP (Some
      [\<lparr>pt_t = 0, pt_y = 200\<rparr>, \<lparr>pt_t = 16, pt_y = 195\<rparr>, \<lparr>pt_t = 32, pt_y = 190\<rparr>]) 20 s' = Some 195 \<and>
   ghostBirbPosP (Some
      [\<lparr>pt_t = 0, pt_y = 200\<rparr>, \<lparr>pt_t = 16, pt_y = 195\<rparr>, \<lparr>pt_t = 32, pt_y = 190\<rparr>]) 50 s' = None"
  by (simp add: lastIdxLE_def ghostReducer_def ghostBirbPosP_def Let_def)

section \<open>The tick\<close>

lemmas tick_consts =
  updatedBirbVelocity_def newBirbPositionUnbound_def pipeQueue_def pipeQueueUpdated_def
  pipeQueuePass_def nextPipe_def currentPipePassing_def updatedBirbPosition_def hitCanvas_def
  overlapping_def firstHitThisPipe_def keepPiercing_def isSideEntry_def shouldClamp_def
  newBirbPosition_def hitTopSidePipe_def hitCanvasTop_def collideFrame_def
  newBirbLives_def invinciblePipeTime2_def scoreUpdate_def newGameOver_def

lemmas pipe_consts =
  updatePipe_def pipeXposAtAge_def clamp01_def mkPipe_def clampToPipeGap_def outsideGapY_def
  hitTopSide_def

lemma tickBody_fields [simp]:
  "birbPosition (tickBody pp ct s) = newBirbPosition pp ct s"
  "birbVelocity (tickBody pp ct s) = newBirbVelocity pp ct s"
  "birbLives (tickBody pp ct s) = newBirbLives pp ct s"
  "elapsedTime (tickBody pp ct s) = ct"
  "score (tickBody pp ct s) = scoreUpdate pp ct s"
  "gameOver (tickBody pp ct s) = newGameOver pp ct s"
  "pipeRead (tickBody pp ct s) = Some (pipeQueueUpdated pp ct s)"
  "pipeRendering (tickBody pp ct s) = Some (nextPipe pp ct s)"
  "rngSeed (tickBody pp ct s) = rngSeed2 pp ct s"
  "invinciblePipeTime (tickBody pp ct s) = invinciblePipeTime2 pp ct s"
  "timeStart (tickBody pp ct s) = timeStart s"
  "ghostBirbPos (tickBody pp ct s) = ghostBirbPos s"
  by (simp_all add: tickBody_def)

lemma tick_running:
  "\<not> gameOver s \<Longrightarrow> score s \<noteq> 20 \<Longrightarrow> tick pp now s = tickBody pp (now - timeStart s) s"
  by (simp add: tick_def)

lemma tick_stopped: "gameOver s \<or> score s = 20 \<Longrightarrow> tick pp now s = s"
  by (auto simp add: tick_def)

lemma tickP_running:
  "\<not> gameOver s \<Longrightarrow> score s \<noteq> 20 \<Longrightarrow> \<not> paused s \<Longrightarrow>
   tickP pp gp s =
     (tickBody pp (elapsedTime s + 16) s)
       \<lparr> ghostBirbPos := ghostBirbPosP gp (elapsedTime s + 16) s \<rparr>"
  by (simp add: tickP_def Let_def)

lemma tickP_stopped: "gameOver s \<or> score s = 20 \<or> paused s \<Longrightarrow> tickP pp gp s = s"
  by (auto simp add: tickP_def)

subsection \<open>Example runs\<close>

text \<open>The definitions a run on a concrete schedule is evaluated with.\<close>

lemmas eval_defs = run_def tick_def tickBody_def tick_consts pipe_consts seed1_def bounce_def
  newBirbVelocity_def rngSeed2_def RNG_hash_chain RNG_scale_def ghostReducer_def
  lastIdxLE_def examplePath_def hitPipes_def hitRows_def gapPipes_def gapRows_def
  pipeProperties_def initialState_def
  Let_def

text \<open>The state after the hit from the side, and the pipe at the next tick.\<close>

lemma afterFirstHit_eval:
  "afterFirstHit =
     \<lparr> birbPosition = 1003 / 5, birbVelocity = 10455469332 / 2147483647, birbLives = 2,
       timeStart = 0, elapsedTime = 1904, score = 0, gameOver = False,
       pipeRead = Some (map (updatePipe 1904) hitPipes),
       pipeRendering = Some [updatePipe 1904 (mkPipe (9 / 10, 1 / 10, 0)),
                             updatePipe 1904 (mkPipe (9 / 10, 1 / 10, 1))],
       pipeHistory = None, pipePassing = None, rngSeed = 233191843,
       invinciblePipeTime = Some 0, ghostBirbPos = None \<rparr>"
  by (simp add: afterFirstHit_def eval_defs)

lemma afterFirstHit_fields:
  "gameOver afterFirstHit = False" "score afterFirstHit = 0" "timeStart afterFirstHit = 0"
  "invinciblePipeTime afterFirstHit = Some 0" "birbLives afterFirstHit = 2"
  "updatedBirbPosition afterFirstHit = 2212645895542 / 10737418235"
  "overlapping hitPipes 1920 afterFirstHit
     = Some (updatePipe 1920 (updatePipe 1904 (mkPipe (9 / 10, 1 / 10, 0))))"
  by (simp_all add: afterFirstHit_eval tick_consts pipe_consts hitPipes_def hitRows_def
      pipeProperties_def Let_def)

lemma hit_pipe_1920:
  "time (mkPipe (9 / 10, 1 / 10, 0)) = 0"
  "time (updatePipe 1920 (updatePipe 1904 (mkPipe (9 / 10, 1 / 10, 0)))) = 0"
  "gapTop (updatePipe 1920 (updatePipe 1904 (mkPipe (9 / 10, 1 / 10, 0)))) = 340"
  "gapBottom (updatePipe 1920 (updatePipe 1904 (mkPipe (9 / 10, 1 / 10, 0)))) = 350"
  "prevPassing (updatePipe 1920 (updatePipe 1904 (mkPipe (9 / 10, 1 / 10, 0)))) = True"
  by (simp_all add: pipe_consts Let_def)

text \<open>The state before the bird leaves the gap, and the pipe at the next tick.\<close>

lemma beforeGapHit_eval:
  "beforeGapHit =
     \<lparr> birbPosition = 1009 / 5, birbVelocity = 6 / 5, birbLives = 3,
       timeStart = 0, elapsedTime = 1920, score = 0, gameOver = False,
       pipeRead = Some (map (\<lambda>p. updatePipe 1920 (updatePipe 1904 p)) gapPipes),
       pipeRendering = Some (map (\<lambda>p. updatePipe 1920 (updatePipe 1904 p)) gapPipes),
       pipeHistory = None, pipePassing = None, rngSeed = 1234,
       invinciblePipeTime = None, ghostBirbPos = None \<rparr>"
  by (simp add: beforeGapHit_def eval_defs)

lemma beforeGapHit_fields:
  "gameOver beforeGapHit = False" "score beforeGapHit = 0" "timeStart beforeGapHit = 0"
  "invinciblePipeTime beforeGapHit = None" "birbLives beforeGapHit = 3"
  "updatedBirbPosition beforeGapHit = 1018 / 5"
  "overlapping gapPipes 1936 beforeGapHit
     = Some (updatePipe 1936 (updatePipe 1920 (updatePipe 1904 (mkPipe (211 / 400, 21 / 200, 0)))))"
  by (simp_all add: beforeGapHit_eval tick_consts pipe_consts gapPipes_def gapRows_def
      pipeProperties_def Let_def)

lemma gap_pipe_1936:
  "time (mkPipe (211 / 400, 21 / 200, 0)) = 0"
  "time (updatePipe 1936 (updatePipe 1920 (updatePipe 1904 (mkPipe (211 / 400, 21 / 200, 0))))) = 0"
  "gapTop (updatePipe 1936 (updatePipe 1920 (updatePipe 1904 (mkPipe (211 / 400, 21 / 200, 0)))))
     = 190"
  "gapBottom (updatePipe 1936 (updatePipe 1920 (updatePipe 1904 (mkPipe (211 / 400, 21 / 200, 0)))))
     = 202"
  "prevPassing (updatePipe 1936 (updatePipe 1920 (updatePipe 1904 (mkPipe (211 / 400, 21 / 200, 0)))))
     = True"
  by (simp_all add: pipe_consts Let_def)


text \<open>The state after the third hit.\<close>

lemma afterThirdHit_eval:
  "afterThirdHit =
     \<lparr> birbPosition = 2267177072223 / 10737418235,
       birbVelocity = 9275589372 / 2147483647, birbLives = 0, timeStart = 0,
       elapsedTime = 3920, score = 2, gameOver = True,
       pipeRead =
         Some (map (\<lambda>p. updatePipe 3920 (updatePipe 2920 (updatePipe 1904 p))) hitPipes),
       pipeRendering =
         Some [updatePipe 3920 (updatePipe 2920 (updatePipe 1904 (mkPipe (9 / 10, 1 / 10, 1)))),
               updatePipe 3920 (updatePipe 2920 (updatePipe 1904 (mkPipe (9 / 10, 1 / 10, 2))))],
       pipeHistory = None, pipePassing = None, rngSeed = 85706848,
       invinciblePipeTime = Some 2000, ghostBirbPos = Some 200 \<rparr>"
  by (simp add: afterThirdHit_def eval_defs)

lemma afterThirdHit_fields:
  "gameOver afterThirdHit = True" "birbLives afterThirdHit = 0"
  "ghostBirbPos afterThirdHit = Some 200" "rngSeed afterThirdHit = 85706848"
  by (simp_all add: afterThirdHit_eval)

text \<open>The first tick of a run with no pipe.\<close>

lemma overlapping_initial: "overlapping [] 16 (initialState 0) = None"
  by (simp add: tick_consts initialState_def)

subsection \<open>The seed of a run\<close>

text \<open>
  The seed of a run of \<^verbatim>\<open>src/main.ts\<close> is \<^verbatim>\<open>Bounce.SEED\<close> or a hash: an
  integer from 0 to \<open>2^31 - 1\<close>. The next bounce is scaled into \<open>[-1, 1]\<close>.
\<close>

lemma tickBody_seed:
  assumes "\<exists>k. 0 \<le> k \<and> k < 2147483648 \<and> rngSeed s = of_int k"
  shows "\<exists>k. 0 \<le> k \<and> k < 2147483648 \<and> rngSeed (tickBody pp ct s) = of_int k"
proof -
  from assms obtain k where k: "0 \<le> k" "k < 2147483648" "rngSeed s = of_int k" by blast
  show ?thesis
  proof (cases "collideFrame pp ct s")
    case True
    then have "rngSeed (tickBody pp ct s) = RNG_hash (of_int k)"
      by (simp add: rngSeed2_def seed1_def k(3))
    with RNG_hash_nonneg_int [OF k(1)] show ?thesis by simp
  next
    case False
    then have "rngSeed (tickBody pp ct s) = of_int k"
      by (simp add: rngSeed2_def k(3))
    with k show ?thesis by blast
  qed
qed

lemma applyEvent_seed:
  assumes "\<exists>k. 0 \<le> k \<and> k < 2147483648 \<and> rngSeed s = of_int k"
  shows "\<exists>k. 0 \<le> k \<and> k < 2147483648 \<and> rngSeed (applyEvent pp path s ev) = of_int k"
proof (cases ev)
  case (Tick now)
  with assms tickBody_seed [OF assms, of pp "now - timeStart s"] show ?thesis
    by (simp add: tick_def)
next
  case Flap
  with assms show ?thesis by (simp add: flap_def)
next
  case (Ghost t)
  with assms show ?thesis by (simp add: ghostReducer_def Let_def)
qed

lemma foldl_seed:
  "\<exists>k. 0 \<le> k \<and> k < 2147483648 \<and> rngSeed s = of_int k \<Longrightarrow>
   \<exists>k. 0 \<le> k \<and> k < 2147483648 \<and> rngSeed (foldl (applyEvent pp path) s evs) = of_int k"
proof (induction evs arbitrary: s)
  case Nil
  then show ?case by simp
next
  case (Cons ev evs)
  from Cons.IH [OF applyEvent_seed [OF Cons.prems, of pp path ev]] show ?case by simp
qed

lemma run_seed:
  "\<exists>k. 0 \<le> k \<and> k < 2147483648 \<and> rngSeed (run pp path (initialState t0) evs) = of_int k"
proof -
  have "0 \<le> (1234::int) \<and> (1234::int) < 2147483648 \<and> rngSeed (initialState t0) = of_int 1234"
    by (simp add: initialState_def)
  then have "\<exists>k. 0 \<le> k \<and> k < 2147483648 \<and> rngSeed (initialState t0) = of_int k" by blast
  from foldl_seed [OF this] show ?thesis by (simp add: run_def)
qed

lemma run_scale_range:
  "- 1 \<le> RNG_scale (RNG_hash (rngSeed (run pp path (initialState t0) evs))) \<and>
   RNG_scale (RNG_hash (rngSeed (run pp path (initialState t0) evs))) \<le> 1"
proof -
  from run_seed [of pp path t0 evs] obtain k
    where k: "0 \<le> k" "rngSeed (run pp path (initialState t0) evs) = of_int k" by blast
  from RNG_scale_hash_range_nonneg [OF k(1)] show ?thesis by (simp add: k(2))
qed


subsection \<open>Collision clamp\<close>

lemma tickBody_clamp:
  assumes ov: "overlapping pp ct s = Some p"
    and out: "outsideGapY p (updatedBirbPosition s)"
    and prev: "prevPassing p"
    and fresh: "invinciblePipeTime s \<noteq> Some (time p)"
  shows "newBirbPosition pp ct s =
           (if updatedBirbPosition s \<le> gapTop p then gapTop p else gapBottom p)"
proof -
  have fh: "firstHitThisPipe pp ct s"
    using ov out fresh by (simp add: firstHitThisPipe_def)
  have nse: "\<not> isSideEntry pp ct s"
    using ov prev by (simp add: isSideEntry_def)
  have sc: "shouldClamp pp ct s"
    using fh nse ov by (simp add: shouldClamp_def)
  have "newBirbPosition pp ct s = clampToPipeGap p (updatedBirbPosition s)"
    using sc ov by (simp add: newBirbPosition_def)
  also have "\<dots> = (if updatedBirbPosition s \<le> gapTop p then gapTop p else gapBottom p)"
    using out by (auto simp add: clampToPipeGap_def outsideGapY_def)
  finally show ?thesis .
qed

text \<open>
  C2, as amended. In a tick of a state that is not terminal, if the canvas-clamped position
  of the bird is outside the gap of the overlapping pipe, that pipe's overlap flag of the
  previous tick was true, and the invincibility marker is not this pipe's spawn time, then
  the new position of the bird is the pipe's \<open>gapTop\<close> when the position is at or above it
  (\<open>y \<le> gapTop\<close>), and its \<open>gapBottom\<close> otherwise.
  Without the condition on the marker the position is not clamped
  (\<open>collision_clamp_counterexample\<close>): the bird passes through a pipe it has already hit.
\<close>

theorem collision_clamp:
  assumes run: "\<not> gameOver s" "score s \<noteq> 20"
    and ov: "overlapping pp (now - timeStart s) s = Some p"
    and out: "outsideGapY p (updatedBirbPosition s)"
    and prev: "prevPassing p"
    and fresh: "invinciblePipeTime s \<noteq> Some (time p)"
  shows "birbPosition (tick pp now s) =
           (if updatedBirbPosition s \<le> gapTop p then gapTop p else gapBottom p)"
  using run tickBody_clamp [OF ov out prev fresh] by (simp add: tick_running)

text \<open>The same for the tick of the pause-capable revision, on a state that is not paused.\<close>

lemma collision_clamp_tickP:
  assumes run: "\<not> gameOver s" "score s \<noteq> 20" "\<not> paused s"
    and ov: "overlapping pp (elapsedTime s + TICK_RATE_MS) s = Some p"
    and out: "outsideGapY p (updatedBirbPosition s)"
    and prev: "prevPassing p"
    and fresh: "invinciblePipeTime s \<noteq> Some (time p)"
  shows "birbPosition (tickP pp gp s) =
           (if updatedBirbPosition s \<le> gapTop p then gapTop p else gapBottom p)"
  using run tickBody_clamp [OF ov out prev fresh] by (simp add: tickP_def Let_def)

theorem collision_clamp_witness:
  "beforeGapHit = run gapPipes [] (initialState 0) [Tick 1904, Tick 1920] \<and>
   \<not> gameOver beforeGapHit \<and> score beforeGapHit \<noteq> 20 \<and>
   overlapping gapPipes (1936 - timeStart beforeGapHit) beforeGapHit
     = Some (updatePipe 1936 (updatePipe 1920 (updatePipe 1904 (mkPipe (211 / 400, 21 / 200, 0))))) \<and>
   outsideGapY (updatePipe 1936 (updatePipe 1920 (updatePipe 1904 (mkPipe (211 / 400, 21 / 200, 0)))))
     (updatedBirbPosition beforeGapHit) \<and>
   prevPassing (updatePipe 1936 (updatePipe 1920 (updatePipe 1904 (mkPipe (211 / 400, 21 / 200, 0))))) \<and>
   invinciblePipeTime beforeGapHit
     \<noteq> Some (time (updatePipe 1936 (updatePipe 1920 (updatePipe 1904
         (mkPipe (211 / 400, 21 / 200, 0)))))) \<and>
   updatedBirbPosition beforeGapHit = 1018 / 5 \<and>
   birbPosition (tick gapPipes 1936 beforeGapHit) = 202"
proof -
  let ?p = "updatePipe 1936 (updatePipe 1920 (updatePipe 1904 (mkPipe (211 / 400, 21 / 200, 0))))"
  have d: "beforeGapHit = run gapPipes [] (initialState 0) [Tick 1904, Tick 1920]"
    by (rule beforeGapHit_def)
  have h1: "\<not> gameOver beforeGapHit" and h2: "score beforeGapHit \<noteq> 20"
    by (simp_all add: beforeGapHit_fields)
  have h3: "overlapping gapPipes (1936 - timeStart beforeGapHit) beforeGapHit = Some ?p"
    by (simp add: beforeGapHit_fields)
  have h4: "outsideGapY ?p (updatedBirbPosition beforeGapHit)"
    by (simp add: outsideGapY_def beforeGapHit_fields gap_pipe_1936)
  have h5: "prevPassing ?p"
    by (simp add: gap_pipe_1936)
  have h6: "invinciblePipeTime beforeGapHit \<noteq> Some (time ?p)"
    by (simp add: beforeGapHit_fields)
  have u: "updatedBirbPosition beforeGapHit = 1018 / 5"
    by (simp add: beforeGapHit_fields)
  have "birbPosition (tick gapPipes 1936 beforeGapHit) = 202"
    using collision_clamp [OF h1 h2 h3 h4 h5 h6]
    by (simp add: beforeGapHit_fields gap_pipe_1936)
  with d h1 h2 h3 h4 h5 h6 u show ?thesis by blast
qed

theorem collision_clamp_counterexample:
  "afterFirstHit = run hitPipes [] (initialState 0) [Tick 1904] \<and>
   \<not> gameOver afterFirstHit \<and> score afterFirstHit \<noteq> 20 \<and>
   overlapping hitPipes (1920 - timeStart afterFirstHit) afterFirstHit
     = Some (updatePipe 1920 (updatePipe 1904 (mkPipe (9 / 10, 1 / 10, 0)))) \<and>
   prevPassing (updatePipe 1920 (updatePipe 1904 (mkPipe (9 / 10, 1 / 10, 0)))) \<and>
   gapTop (updatePipe 1920 (updatePipe 1904 (mkPipe (9 / 10, 1 / 10, 0)))) = 340 \<and>
   gapBottom (updatePipe 1920 (updatePipe 1904 (mkPipe (9 / 10, 1 / 10, 0)))) = 350 \<and>
   outsideGapY (updatePipe 1920 (updatePipe 1904 (mkPipe (9 / 10, 1 / 10, 0))))
     (updatedBirbPosition afterFirstHit) \<and>
   birbPosition (tick hitPipes 1920 afterFirstHit) = 2212645895542 / 10737418235 \<and>
   birbPosition (tick hitPipes 1920 afterFirstHit) < 340"
proof -
  let ?p = "updatePipe 1920 (updatePipe 1904 (mkPipe (9 / 10, 1 / 10, 0)))"
  have ov: "overlapping hitPipes (1920 - timeStart afterFirstHit) afterFirstHit = Some ?p"
    by (simp add: afterFirstHit_fields)
  have out: "outsideGapY ?p (updatedBirbPosition afterFirstHit)"
    by (simp add: outsideGapY_def afterFirstHit_fields hit_pipe_1920)
  have nf: "\<not> firstHitThisPipe hitPipes 1920 afterFirstHit"
    by (simp add: firstHitThisPipe_def afterFirstHit_fields hit_pipe_1920)
  have pos: "birbPosition (tick hitPipes 1920 afterFirstHit) = updatedBirbPosition afterFirstHit"
    using nf by (simp add: tick_running afterFirstHit_fields newBirbPosition_def shouldClamp_def)
  have d: "afterFirstHit = run hitPipes [] (initialState 0) [Tick 1904]"
    by (rule afterFirstHit_def)
  have val: "birbPosition (tick hitPipes 1920 afterFirstHit) = 2212645895542 / 10737418235"
    by (simp add: pos afterFirstHit_fields)
  have lt: "birbPosition (tick hitPipes 1920 afterFirstHit) < 340"
    by (simp add: val)
  have g: "\<not> gameOver afterFirstHit" "score afterFirstHit \<noteq> 20"
    by (simp_all add: afterFirstHit_fields)
  have pp: "prevPassing ?p" "gapTop ?p = 340" "gapBottom ?p = 350"
    by (simp_all add: hit_pipe_1920)
  from d g ov pp out val lt show ?thesis
    by blast
qed

subsection \<open>Invincibility marker\<close>

lemma tickBody_marker:
  "(overlapping pp ct s = Some p \<and> invinciblePipeTime s = Some (time p) \<longrightarrow>
      newBirbLives pp ct s =
        (if hitCanvas s then (if birbLives s - 1 \<le> 0 then 0 else birbLives s - 1)
         else birbLives s) \<and>
      invinciblePipeTime2 pp ct s = Some (time p)) \<and>
   (overlapping pp ct s = Some p \<and> outsideGapY p (updatedBirbPosition s) \<and>
    invinciblePipeTime s \<noteq> Some (time p) \<longrightarrow>
      invinciblePipeTime2 pp ct s = Some (time p)) \<and>
   (overlapping pp ct s = Some p \<and> \<not> outsideGapY p (updatedBirbPosition s) \<and>
    invinciblePipeTime s \<noteq> Some (time p) \<longrightarrow>
      invinciblePipeTime2 pp ct s = None) \<and>
   (overlapping pp ct s = None \<longrightarrow> invinciblePipeTime2 pp ct s = None) \<and>
   (invinciblePipeTime2 pp ct s = Some t \<longrightarrow>
      (\<exists>q. overlapping pp ct s = Some q \<and> time q = t))"
proof -
  have a: "overlapping pp ct s = Some p \<and> invinciblePipeTime s = Some (time p) \<longrightarrow>
      newBirbLives pp ct s =
        (if hitCanvas s then (if birbLives s - 1 \<le> 0 then 0 else birbLives s - 1)
         else birbLives s) \<and>
      invinciblePipeTime2 pp ct s = Some (time p)"
    by (simp add: newBirbLives_def invinciblePipeTime2_def firstHitThisPipe_def
        keepPiercing_def)
  have b: "overlapping pp ct s = Some p \<and> outsideGapY p (updatedBirbPosition s) \<and>
      invinciblePipeTime s \<noteq> Some (time p) \<longrightarrow>
        invinciblePipeTime2 pp ct s = Some (time p)"
    by (simp add: invinciblePipeTime2_def firstHitThisPipe_def)
  have c: "overlapping pp ct s = Some p \<and> \<not> outsideGapY p (updatedBirbPosition s) \<and>
      invinciblePipeTime s \<noteq> Some (time p) \<longrightarrow>
        invinciblePipeTime2 pp ct s = None"
    by (simp add: invinciblePipeTime2_def firstHitThisPipe_def keepPiercing_def)
  have d: "overlapping pp ct s = None \<longrightarrow> invinciblePipeTime2 pp ct s = None"
    by (simp add: invinciblePipeTime2_def firstHitThisPipe_def keepPiercing_def)
  have e: "invinciblePipeTime2 pp ct s = Some t \<longrightarrow>
        (\<exists>q. overlapping pp ct s = Some q \<and> time q = t)"
    by (cases "overlapping pp ct s")
      (auto simp add: invinciblePipeTime2_def firstHitThisPipe_def keepPiercing_def
        split: if_splits)
  from a b c d e show ?thesis by blast
qed

text \<open>
  C3. In a tick of a state that is not terminal, with the overlapping pipe being the one
  the tick selects (the first spawned pipe of the queue whose span overlaps the bird's):
  when the spawn time of the overlapping pipe is the invincibility marker, the lives
  change only by the canvas (one life less, not below 0, exactly when the bird is at the
  top or the floor of the canvas) and the marker is kept; on a fresh hit the marker becomes
  the spawn time of the overlapping pipe; with no overlapping pipe, or inside the gap of
  a pipe that is not the marked one, the marker is cleared; and the marker after a tick
  is always the spawn time of the pipe that overlaps the bird then.
\<close>

theorem invincibility_by_id:
  assumes run: "\<not> gameOver s" "score s \<noteq> 20"
  shows
    "(overlapping pp (now - timeStart s) s = Some p \<and> invinciblePipeTime s = Some (time p) \<longrightarrow>
        birbLives (tick pp now s) =
          (if hitCanvas s then (if birbLives s - 1 \<le> 0 then 0 else birbLives s - 1)
           else birbLives s) \<and>
        invinciblePipeTime (tick pp now s) = Some (time p)) \<and>
     (overlapping pp (now - timeStart s) s = Some p \<and> outsideGapY p (updatedBirbPosition s) \<and>
      invinciblePipeTime s \<noteq> Some (time p) \<longrightarrow>
        invinciblePipeTime (tick pp now s) = Some (time p)) \<and>
     (overlapping pp (now - timeStart s) s = Some p \<and> \<not> outsideGapY p (updatedBirbPosition s) \<and>
      invinciblePipeTime s \<noteq> Some (time p) \<longrightarrow>
        invinciblePipeTime (tick pp now s) = None) \<and>
     (overlapping pp (now - timeStart s) s = None \<longrightarrow>
        invinciblePipeTime (tick pp now s) = None) \<and>
     (invinciblePipeTime (tick pp now s) = Some t \<longrightarrow>
        (\<exists>q. overlapping pp (now - timeStart s) s = Some q \<and> time q = t))"
proof -
  have "tick pp now s = tickBody pp (now - timeStart s) s"
    using run by (rule tick_running)
  with tickBody_marker [of pp "now - timeStart s" s p t] show ?thesis
    by simp
qed

theorem invincibility_by_id_witness:
  "\<not> gameOver afterFirstHit \<and> score afterFirstHit \<noteq> 20 \<and>
   overlapping hitPipes (1920 - timeStart afterFirstHit) afterFirstHit
     = Some (updatePipe 1920 (updatePipe 1904 (mkPipe (9 / 10, 1 / 10, 0)))) \<and>
   invinciblePipeTime afterFirstHit
     = Some (time (updatePipe 1920 (updatePipe 1904 (mkPipe (9 / 10, 1 / 10, 0))))) \<and>
   outsideGapY (updatePipe 1920 (updatePipe 1904 (mkPipe (9 / 10, 1 / 10, 0))))
     (updatedBirbPosition afterFirstHit) \<and>
   birbLives afterFirstHit = 2 \<and>
   birbLives (tick hitPipes 1920 afterFirstHit) = 2 \<and>
   invinciblePipeTime (tick hitPipes 1920 afterFirstHit) = Some 0 \<and>
   \<not> gameOver beforeGapHit \<and> score beforeGapHit \<noteq> 20 \<and>
   overlapping gapPipes (1936 - timeStart beforeGapHit) beforeGapHit
     = Some (updatePipe 1936 (updatePipe 1920 (updatePipe 1904 (mkPipe (211 / 400, 21 / 200, 0))))) \<and>
   outsideGapY (updatePipe 1936 (updatePipe 1920 (updatePipe 1904 (mkPipe (211 / 400, 21 / 200, 0)))))
     (updatedBirbPosition beforeGapHit) \<and>
   invinciblePipeTime beforeGapHit = None \<and>
   invinciblePipeTime (tick gapPipes 1936 beforeGapHit) = Some 0 \<and>
   \<not> gameOver (initialState 0) \<and> score (initialState 0) \<noteq> 20 \<and>
   overlapping [] (16 - timeStart (initialState 0)) (initialState 0) = None \<and>
   invinciblePipeTime (tick [] 16 (initialState 0)) = None"
proof -
  let ?p = "updatePipe 1920 (updatePipe 1904 (mkPipe (9 / 10, 1 / 10, 0)))"
  let ?q = "updatePipe 1936 (updatePipe 1920 (updatePipe 1904 (mkPipe (211 / 400, 21 / 200, 0))))"
  have h1: "\<not> gameOver afterFirstHit" and h2: "score afterFirstHit \<noteq> 20"
    by (simp_all add: afterFirstHit_fields)
  have h3: "overlapping hitPipes (1920 - timeStart afterFirstHit) afterFirstHit = Some ?p"
    by (simp add: afterFirstHit_fields)
  have h4: "invinciblePipeTime afterFirstHit = Some (time ?p)"
    by (simp add: afterFirstHit_fields hit_pipe_1920)
  have h5: "outsideGapY ?p (updatedBirbPosition afterFirstHit)"
    by (simp add: outsideGapY_def afterFirstHit_fields hit_pipe_1920)
  have nc: "\<not> hitCanvas afterFirstHit"
    by (simp add: hitCanvas_def afterFirstHit_fields)
  from invincibility_by_id [OF h1 h2, of hitPipes 1920 ?p] h3 h4
  have "birbLives (tick hitPipes 1920 afterFirstHit) =
          (if hitCanvas afterFirstHit
           then (if birbLives afterFirstHit - 1 \<le> 0 then 0 else birbLives afterFirstHit - 1)
           else birbLives afterFirstHit) \<and>
        invinciblePipeTime (tick hitPipes 1920 afterFirstHit) = Some (time ?p)"
    by blast
  then have kept: "birbLives (tick hitPipes 1920 afterFirstHit) = 2 \<and>
     invinciblePipeTime (tick hitPipes 1920 afterFirstHit) = Some 0"
    using nc by (simp add: afterFirstHit_fields hit_pipe_1920)
  have l: "birbLives afterFirstHit = 2"
    by (simp add: afterFirstHit_fields)
  have g1: "\<not> gameOver beforeGapHit" and g2: "score beforeGapHit \<noteq> 20"
    by (simp_all add: beforeGapHit_fields)
  have g3: "overlapping gapPipes (1936 - timeStart beforeGapHit) beforeGapHit = Some ?q"
    by (simp add: beforeGapHit_fields)
  have g4: "outsideGapY ?q (updatedBirbPosition beforeGapHit)"
    by (simp add: outsideGapY_def beforeGapHit_fields gap_pipe_1936)
  have g5: "invinciblePipeTime beforeGapHit \<noteq> Some (time ?q)"
    and g6: "invinciblePipeTime beforeGapHit = None"
    by (simp_all add: beforeGapHit_fields)
  from invincibility_by_id [OF g1 g2, of gapPipes 1936 ?q] g3 g4 g5
  have "invinciblePipeTime (tick gapPipes 1936 beforeGapHit) = Some (time ?q)"
    by blast
  then have fresh: "invinciblePipeTime (tick gapPipes 1936 beforeGapHit) = Some 0"
    by (simp add: gap_pipe_1936)
  have i1: "\<not> gameOver (initialState 0)" and i2: "score (initialState 0) \<noteq> 20"
    by (simp_all add: initialState_def)
  have i3: "overlapping [] (16 - timeStart (initialState 0)) (initialState 0) = None"
    using overlapping_initial by (simp add: initialState_def)
  from invincibility_by_id [OF i1 i2, of "[]" 16] i3
  have cleared: "invinciblePipeTime (tick [] 16 (initialState 0)) = None"
    by blast
  from h1 h2 h3 h4 h5 l kept g1 g2 g3 g4 g6 fresh i1 i2 i3 cleared show ?thesis
    by blast
qed

text \<open>The same for the tick of the pause-capable revision, on a state that is not paused.\<close>

lemma invincibility_by_id_tickP:
  assumes run: "\<not> gameOver s" "score s \<noteq> 20" "\<not> paused s"
  shows
    "(overlapping pp (elapsedTime s + TICK_RATE_MS) s = Some p \<and>
      invinciblePipeTime s = Some (time p) \<longrightarrow>
        birbLives (tickP pp gp s) =
          (if hitCanvas s then (if birbLives s - 1 \<le> 0 then 0 else birbLives s - 1)
           else birbLives s) \<and>
        invinciblePipeTime (tickP pp gp s) = Some (time p)) \<and>
     (overlapping pp (elapsedTime s + TICK_RATE_MS) s = Some p \<and>
      outsideGapY p (updatedBirbPosition s) \<and> invinciblePipeTime s \<noteq> Some (time p) \<longrightarrow>
        invinciblePipeTime (tickP pp gp s) = Some (time p)) \<and>
     (overlapping pp (elapsedTime s + TICK_RATE_MS) s = Some p \<and>
      \<not> outsideGapY p (updatedBirbPosition s) \<and> invinciblePipeTime s \<noteq> Some (time p) \<longrightarrow>
        invinciblePipeTime (tickP pp gp s) = None) \<and>
     (overlapping pp (elapsedTime s + TICK_RATE_MS) s = None \<longrightarrow>
        invinciblePipeTime (tickP pp gp s) = None) \<and>
     (invinciblePipeTime (tickP pp gp s) = Some t \<longrightarrow>
        (\<exists>q. overlapping pp (elapsedTime s + TICK_RATE_MS) s = Some q \<and> time q = t))"
proof -
  have "tickP pp gp s =
     (tickBody pp (elapsedTime s + 16) s)
       \<lparr> ghostBirbPos := ghostBirbPosP gp (elapsedTime s + 16) s \<rparr>"
    using run by (rule tickP_running)
  with tickBody_marker [of pp "elapsedTime s + 16" s p t] show ?thesis
    by simp
qed

subsection \<open>Terminal states\<close>

text \<open>A run starts in a state that is not terminal.\<close>

lemma initialState_running:
  "\<not> (gameOver (initialState t0) \<or> score (initialState t0) = 20)"
  by (simp add: initialState_def)

lemma initialRun_running:
  "\<not> (gameOver (st (initialRun t0 seed0)) \<or> score (st (initialRun t0 seed0)) = 20)"
  by (simp add: initialRun_def pauseState_def initialStateP_def)

text \<open>The state of a run is the \<^verbatim>\<open>scan\<close> over a prefix of its events.\<close>

lemma runT_prefix:
  "\<exists>k. k \<le> length evs \<and> runT pp path s evs = run pp path s (take k evs)"
proof (induction evs arbitrary: s)
  case Nil
  show ?case by (simp add: run_def)
next
  case (Cons ev evs)
  let ?s' = "applyEvent pp path s ev"
  show ?case
  proof (cases "gameOver ?s' \<or> score ?s' = 20")
    case True
    then have "Suc 0 \<le> length (ev # evs) \<and>
        runT pp path s (ev # evs) = run pp path s (take (Suc 0) (ev # evs))"
      by (simp add: run_def)
    then show ?thesis by blast
  next
    case False
    from Cons.IH [of ?s'] obtain k
      where "k \<le> length evs" "runT pp path ?s' evs = run pp path ?s' (take k evs)"
      by blast
    with False have "Suc k \<le> length (ev # evs) \<and>
        runT pp path s (ev # evs) = run pp path s (take (Suc k) (ev # evs))"
      by (simp add: run_def)
    then show ?thesis by blast
  qed
qed

lemma runPT_prefix:
  "\<exists>k. k \<le> length ins \<and> runPT pp gp r ins = runP pp gp r (take k ins)"
proof (induction ins arbitrary: r)
  case Nil
  show ?case by (simp add: runP_def)
next
  case (Cons i ins)
  let ?r' = "stepP pp gp r i"
  show ?case
  proof (cases "gameOver (st ?r') \<or> score (st ?r') = 20")
    case True
    then have "Suc 0 \<le> length (i # ins) \<and>
        runPT pp gp r (i # ins) = runP pp gp r (take (Suc 0) (i # ins))"
      by (simp add: runP_def)
    then show ?thesis by blast
  next
    case False
    from Cons.IH [of ?r'] obtain k
      where "k \<le> length ins" "runPT pp gp ?r' ins = runP pp gp ?r' (take k ins)"
      by blast
    with False have "Suc k \<le> length (i # ins) \<and>
        runPT pp gp r (i # ins) = runP pp gp r (take (Suc k) (i # ins))"
      by (simp add: runP_def)
    then show ?thesis by blast
  qed
qed

text \<open>
  Once the state of a run is terminal, the run has ended: the events that follow do not
  reach a reducer.
\<close>

lemma runT_ended:
  "gameOver (runT pp path s evs) \<or> score (runT pp path s evs) = 20 \<Longrightarrow>
   \<not> (gameOver s \<or> score s = 20) \<Longrightarrow>
   runT pp path s (evs @ evs') = runT pp path s evs"
  by (induction evs arbitrary: s) (auto simp add: Let_def)

lemma runPT_ended:
  "gameOver (st (runPT pp gp r ins)) \<or> score (st (runPT pp gp r ins)) = 20 \<Longrightarrow>
   \<not> (gameOver (st r) \<or> score (st r) = 20) \<Longrightarrow>
   runPT pp gp r (ins @ ins') = runPT pp gp r ins"
  by (induction ins arbitrary: r) (auto simp add: Let_def)

text \<open>The run in which the bird falls three times to the floor.\<close>

lemmas fall_defs = tickP_def tickBody_def tick_consts seed1_def bounce_def newBirbVelocity_def
  rngSeed2_def RNG_hash_chain RNG_scale_def ghostBirbPosP_def initialRun_def initialStateP_def
  pauseState_def Let_def

lemma fallenRun_eval:
  "fallenRun =
     \<lparr> accState = False, accGate = False,
       st = \<lparr> birbPosition = 370, birbVelocity = - (9275589372 / 2147483647), birbLives = 0,
              timeStart = 0, elapsedTime = 864, score = 0, gameOver = True,
              pipeRead = Some [], pipeRendering = Some [], pipeHistory = None,
              pipePassing = None, rngSeed = 85706848, invinciblePipeTime = None,
              ghostBirbPos = None, paused = False \<rparr> \<rparr>"
  by (simp add: fallenRun_def fallInputs_def eval_nat_numeral fall_defs)

lemma fallenRun_fields:
  "gameOver (st fallenRun) = True" "birbLives (st fallenRun) = 0"
  by (simp_all add: fallenRun_eval)

text \<open>
  C1. In a run from the initial state, as soon as the state has \<open>gameOver\<close> or the score
  20, whatever is delivered next (a tick, a flap, a ghost reducer, a press of P) leaves the
  state of the run as it is: the run ends with that state (\<^verbatim>\<open>takeWhile\<close> after the
  \<^verbatim>\<open>scan\<close>), in both revisions. The tick and the flap reducers moreover return a terminal
  state unchanged by their own guard.
\<close>

theorem terminal_stability:
  "(gameOver (runT pp path (initialState tz) evs) \<or>
      score (runT pp path (initialState tz) evs) = 20 \<longrightarrow>
      runT pp path (initialState tz) (evs @ evs') = runT pp path (initialState tz) evs) \<and>
   (gameOver (st (runPT pq gp (initialRun tp seed) ins)) \<or>
      score (st (runPT pq gp (initialRun tp seed) ins)) = 20 \<longrightarrow>
      runPT pq gp (initialRun tp seed) (ins @ ins') = runPT pq gp (initialRun tp seed) ins) \<and>
   (gameOver s \<or> score s = 20 \<longrightarrow> tick pp now s = s \<and> flap s = s) \<and>
   (gameOver sp \<or> score sp = 20 \<longrightarrow> tickP pq gp sp = sp \<and> flap sp = sp)"
proof -
  have m: "gameOver (runT pp path (initialState tz) evs) \<or>
      score (runT pp path (initialState tz) evs) = 20 \<longrightarrow>
      runT pp path (initialState tz) (evs @ evs') = runT pp path (initialState tz) evs"
    using runT_ended [OF _ initialState_running] by blast
  have p: "gameOver (st (runPT pq gp (initialRun tp seed) ins)) \<or>
      score (st (runPT pq gp (initialRun tp seed) ins)) = 20 \<longrightarrow>
      runPT pq gp (initialRun tp seed) (ins @ ins') = runPT pq gp (initialRun tp seed) ins"
    using runPT_ended [OF _ initialRun_running] by blast
  have g: "gameOver s \<or> score s = 20 \<longrightarrow> tick pp now s = s \<and> flap s = s"
    by (auto simp add: tick_def flap_def)
  have gp: "gameOver sp \<or> score sp = 20 \<longrightarrow> tickP pq gp sp = sp \<and> flap sp = sp"
    by (auto simp add: tickP_def flap_def)
  from m p g gp show ?thesis by blast
qed

theorem terminal_stability_witness:
  "gameOver afterThirdHit \<and>
   runT hitPipes examplePath (initialState 0)
     ([Ghost 0, Tick 1904, Tick 2920, Tick 3920] @ [Ghost 16, Flap, Tick 5000]) = afterThirdHit \<and>
   gameOver (st fallenRun) \<and>
   runPT [] None (initialRun 0 1234) (fallInputs @ [KeyP, KeySpace, Clock]) = fallenRun \<and>
   tick hitPipes 5000 afterThirdHit = afterThirdHit \<and> flap afterThirdHit = afterThirdHit \<and>
   tickP [] None (st fallenRun) = st fallenRun \<and> flap (st fallenRun) = st fallenRun"
proof -
  have h: "gameOver (runT hitPipes examplePath (initialState 0)
             [Ghost 0, Tick 1904, Tick 2920, Tick 3920])"
    using afterThirdHit_fields(1) by (simp add: afterThirdHit_def)
  have hp: "gameOver (st (runPT [] None (initialRun 0 1234) fallInputs))"
    using fallenRun_fields(1) by (simp add: fallenRun_def)
  have a: "gameOver afterThirdHit" and f: "gameOver (st fallenRun)"
    by (simp_all add: afterThirdHit_fields fallenRun_fields)
  from terminal_stability [where pp = hitPipes and path = examplePath and tz = 0
      and evs = "[Ghost 0, Tick 1904, Tick 2920, Tick 3920]" and evs' = "[Ghost 16, Flap, Tick 5000]"
      and pq = "[]" and gp = None and tp = 0 and seed = 1234 and ins = fallInputs
      and ins' = "[KeyP, KeySpace, Clock]" and s = afterThirdHit and now = 5000
      and sp = "st fallenRun"] h hp a f
  have "runT hitPipes examplePath (initialState 0)
          ([Ghost 0, Tick 1904, Tick 2920, Tick 3920] @ [Ghost 16, Flap, Tick 5000])
        = runT hitPipes examplePath (initialState 0) [Ghost 0, Tick 1904, Tick 2920, Tick 3920]"
    and "runPT [] None (initialRun 0 1234) (fallInputs @ [KeyP, KeySpace, Clock])
        = runPT [] None (initialRun 0 1234) fallInputs"
    and "tick hitPipes 5000 afterThirdHit = afterThirdHit \<and> flap afterThirdHit = afterThirdHit"
    and "tickP [] None (st fallenRun) = st fallenRun \<and> flap (st fallenRun) = st fallenRun"
    by blast+
  with a f show ?thesis
    unfolding afterThirdHit_def [symmetric] fallenRun_def [symmetric] by blast
qed

section \<open>Pause\<close>

lemma paused_tickBody [simp]: "paused (tickBody pp ct s) = paused s"
  by (simp add: tickBody_def)

lemma paused_tickP [simp]: "paused (tickP pp gp s) = paused s"
  by (simp add: tickP_def Let_def)

lemma paused_flap [simp]: "paused (flap s) = paused s"
  by (simp add: flap_def)

lemma gateInv_initial: "gateInv (initialRun t0 seed0)"
  by (simp add: gateInv_def initialRun_def pauseState_def initialStateP_def)

lemma gateInv_step: "gateInv r \<Longrightarrow> gateInv (stepP pp gp r i)"
  by (cases i) (auto simp add: gateInv_def pauseState_def)

lemma gateInv_foldl: "gateInv r \<Longrightarrow> gateInv (foldl (stepP pp gp) r ins)"
  by (induction ins arbitrary: r) (simp_all add: gateInv_step)

lemma gateInv_runP: "gateInv (runP pp gp (initialRun t0 seed0) ins)"
  by (simp add: runP_def gateInv_foldl gateInv_initial)

text \<open>
  C5, as amended. The tick reducer returns every paused state unchanged. In a run of the
  pause-capable revision, while the state is paused neither a clock tick nor a press of
  the flap key changes anything (\<^verbatim>\<open>gatedGame$\<close> has switched to
  \<^verbatim>\<open>EMPTY\<close>, so no reducer is applied), and a press of P clears \<open>paused\<close> and
  opens the gate again; while the state is not paused, a clock tick applies the tick
  reducer, the flap key the flap reducer, and P sets \<open>paused\<close> and closes the gate.
  That a flap while paused has no effect is \<open>pause_gating_counterexample\<close>.
\<close>

theorem pause_gating:
  fixes pp gp tz seed ins and r :: prun
  defines "r \<equiv> runP pp gp (initialRun tz seed) ins"
  shows
    "(paused sp \<longrightarrow> tickP pp gp sp = sp) \<and>
     (paused (st r) \<longrightarrow>
        stepP pp gp r Clock = r \<and> stepP pp gp r KeySpace = r \<and>
        st (stepP pp gp r KeyP) = (st r)\<lparr> paused := False \<rparr> \<and>
        \<not> accGate (stepP pp gp r KeyP)) \<and>
     (\<not> paused (st r) \<longrightarrow>
        st (stepP pp gp r Clock) = tickP pp gp (st r) \<and>
        st (stepP pp gp r KeySpace) = flap (st r) \<and>
        st (stepP pp gp r KeyP) = (st r)\<lparr> paused := True \<rparr> \<and>
        accGate (stepP pp gp r KeyP))"
proof -
  have inv: "gateInv r"
    unfolding r_def by (rule gateInv_runP)
  have a: "paused sp \<longrightarrow> tickP pp gp sp = sp"
    by (simp add: tickP_def)
  have b: "paused (st r) \<longrightarrow>
        stepP pp gp r Clock = r \<and> stepP pp gp r KeySpace = r \<and>
        st (stepP pp gp r KeyP) = (st r)\<lparr> paused := False \<rparr> \<and>
        \<not> accGate (stepP pp gp r KeyP)"
    using inv by (simp add: gateInv_def pauseState_def)
  have c: "\<not> paused (st r) \<longrightarrow>
        st (stepP pp gp r Clock) = tickP pp gp (st r) \<and>
        st (stepP pp gp r KeySpace) = flap (st r) \<and>
        st (stepP pp gp r KeyP) = (st r)\<lparr> paused := True \<rparr> \<and>
        accGate (stepP pp gp r KeyP)"
    using inv by (simp add: gateInv_def pauseState_def)
  from a b c show ?thesis by blast
qed

text \<open>
  The flap reducer itself has no pause guard: it is the gate that keeps it from a paused
  state.
\<close>

lemma flap_on_paused:
  "paused sp \<Longrightarrow> \<not> gameOver sp \<Longrightarrow> score sp \<noteq> 20 \<Longrightarrow> flap sp = sp\<lparr> birbVelocity := - 7 \<rparr>"
  by (simp add: flap_def)

lemma runP_KeyP:
  "runP [] None (initialRun 0 1234) [KeyP] =
     \<lparr> accState = True, accGate = True, st = (initialStateP 0 1234)\<lparr> paused := True \<rparr> \<rparr>"
  by (simp add: runP_def initialRun_def pauseState_def)

theorem pause_gating_witness:
  "paused ((initialStateP 0 1234)\<lparr> paused := True \<rparr>) \<and>
   tickP [] None ((initialStateP 0 1234)\<lparr> paused := True \<rparr>)
     = (initialStateP 0 1234)\<lparr> paused := True \<rparr> \<and>
   paused (st (runP [] None (initialRun 0 1234) [KeyP])) \<and>
   stepP [] None (runP [] None (initialRun 0 1234) [KeyP]) Clock
     = runP [] None (initialRun 0 1234) [KeyP] \<and>
   stepP [] None (runP [] None (initialRun 0 1234) [KeyP]) KeySpace
     = runP [] None (initialRun 0 1234) [KeyP] \<and>
   \<not> paused (st (stepP [] None (runP [] None (initialRun 0 1234) [KeyP]) KeyP)) \<and>
   \<not> paused (st (runP [] None (initialRun 0 1234) [])) \<and>
   birbVelocity (st (stepP [] None (runP [] None (initialRun 0 1234) []) KeySpace)) = - 7 \<and>
   elapsedTime (st (stepP [] None (runP [] None (initialRun 0 1234) []) Clock)) = 16"
proof -
  have h: "paused (st (runP [] None (initialRun 0 1234) [KeyP]))"
    by (simp add: runP_KeyP)
  have hs: "paused ((initialStateP 0 1234)\<lparr> paused := True \<rparr>)"
    by simp
  from pause_gating [where pp = "[]" and gp = None and tz = 0 and seed = 1234 and ins = "[KeyP]"
      and sp = "(initialStateP 0 1234)\<lparr> paused := True \<rparr>"] h hs
  have p: "tickP [] None ((initialStateP 0 1234)\<lparr> paused := True \<rparr>)
          = (initialStateP 0 1234)\<lparr> paused := True \<rparr> \<and>
        stepP [] None (runP [] None (initialRun 0 1234) [KeyP]) Clock
          = runP [] None (initialRun 0 1234) [KeyP] \<and>
        stepP [] None (runP [] None (initialRun 0 1234) [KeyP]) KeySpace
          = runP [] None (initialRun 0 1234) [KeyP] \<and>
        st (stepP [] None (runP [] None (initialRun 0 1234) [KeyP]) KeyP)
          = (st (runP [] None (initialRun 0 1234) [KeyP]))\<lparr> paused := False \<rparr>"
    by blast
  have n: "\<not> paused (st (runP [] None (initialRun 0 1234) []))"
    by (simp add: runP_def initialRun_def pauseState_def initialStateP_def)
  from pause_gating [where pp = "[]" and gp = None and tz = 0 and seed = 1234 and ins = "[]"] n
  have q: "st (stepP [] None (runP [] None (initialRun 0 1234) []) Clock)
          = tickP [] None (st (runP [] None (initialRun 0 1234) [])) \<and>
        st (stepP [] None (runP [] None (initialRun 0 1234) []) KeySpace)
          = flap (st (runP [] None (initialRun 0 1234) []))"
    by blast
  have v: "birbVelocity (flap (st (runP [] None (initialRun 0 1234) []))) = - 7"
    by (simp add: runP_def initialRun_def pauseState_def initialStateP_def flap_def)
  have e: "elapsedTime (tickP [] None (st (runP [] None (initialRun 0 1234) []))) = 16"
    by (simp add: runP_def initialRun_def pauseState_def initialStateP_def tickP_def Let_def)
  from p h hs n q v e show ?thesis by simp
qed

theorem pause_gating_counterexample:
  "paused (st (runP [] None (initialRun 0 1234) [KeyP])) \<and>
   \<not> gameOver (st (runP [] None (initialRun 0 1234) [KeyP])) \<and>
   score (st (runP [] None (initialRun 0 1234) [KeyP])) \<noteq> 20 \<and>
   runP [] None (initialRun 0 1234) [KeyP, KeySpace] = runP [] None (initialRun 0 1234) [KeyP] \<and>
   birbVelocity (st (runP [] None (initialRun 0 1234) [KeyP, KeySpace])) = 0"
  by (simp add: runP_def initialRun_def pauseState_def initialStateP_def)

section \<open>Clock\<close>

lemma tick_elapsedTime:
  "\<not> gameOver s \<Longrightarrow> score s \<noteq> 20 \<Longrightarrow> elapsedTime (tick pp now s) = now - timeStart s"
  by (simp add: tick_running)

lemma tickP_elapsedTime:
  "\<not> gameOver s \<Longrightarrow> score s \<noteq> 20 \<Longrightarrow> \<not> paused s \<Longrightarrow>
   elapsedTime (tickP pp gp s) = elapsedTime s + TICK_RATE_MS"
  by (simp add: tickP_running)

text \<open>
  C4. Clock-driven time: a tick is to compute the new elapsed time as the previous one plus
  16, never from a wall clock. The tick of the pause-capable revision does
  (\<open>tickP_elapsedTime\<close>). The tick of \<^verbatim>\<open>src/main.ts\<close> computes it as \<^verbatim>\<open>performance.now() - s.timeStart\<close>
  (\<open>tick_elapsedTime\<close>): from the same state, two clock readings give two states, and the
  elapsed time after a tick on the initial state is 40, not 16, when the clock reads 40.
\<close>

theorem tick_reads_wall_clock:
  "elapsedTime (initialState 0) = 0 \<and>
   elapsedTime (tick [] 16 (initialState 0)) = 16 \<and>
   elapsedTime (tick [] 40 (initialState 0)) = 40 \<and>
   tick [] 16 (initialState 0) \<noteq> tick [] 40 (initialState 0)"
proof -
  have i: "\<not> gameOver (initialState 0)" "score (initialState 0) \<noteq> 20"
    "timeStart (initialState 0) = 0" "elapsedTime (initialState 0) = 0"
    by (simp_all add: initialState_def)
  have a: "elapsedTime (tick [] 16 (initialState 0)) = 16"
    using i by (simp add: tick_elapsedTime)
  have b: "elapsedTime (tick [] 40 (initialState 0)) = 40"
    using i by (simp add: tick_elapsedTime)
  from a b have "tick [] 16 (initialState 0) \<noteq> tick [] 40 (initialState 0)"
    by force
  with a b i show ?thesis by simp
qed

section \<open>Score\<close>

lemma time_updatePipe [simp]: "time (updatePipe ct p) = time p"
  by (simp add: updatePipe_def Let_def)

lemma passed_updatePipe: "passed p \<Longrightarrow> passed (updatePipe ct p)"
  by (simp add: updatePipe_def Let_def)

lemma count_passed_mono:
  assumes "e \<le> ct"
  shows "length (filter (\<lambda>p. time p \<le> e \<and> passed p) q)
           \<le> length (filter (\<lambda>p. passed p = True)
                 (filter (\<lambda>p. time p \<le> ct) (map (updatePipe ct) q)))"
proof (induction q)
  case Nil
  show ?case by simp
next
  case (Cons p q)
  show ?case
  proof (cases "time p \<le> e \<and> passed p")
    case True
    then have "time (updatePipe ct p) \<le> ct" "passed (updatePipe ct p)"
      using assms by (simp_all add: passed_updatePipe)
    with True Cons.IH show ?thesis by simp
  next
    case False
    with Cons.IH show ?thesis by auto
  qed
qed

lemma pipeQueue_tickBody [simp]: "pipeQueue pp (tickBody pp ct s) = pipeQueueUpdated pp ct s"
  by (simp add: pipeQueue_def)

lemma scoreInv_tickBody: "scoreInv pp (tickBody pp ct s)"
proof -
  have "filter (\<lambda>p. passed p = True) (filter (\<lambda>p. time p \<le> ct) (pipeQueueUpdated pp ct s))
      = filter (\<lambda>p. time p \<le> ct \<and> passed p) (pipeQueueUpdated pp ct s)"
    by (simp add: conj_commute)
  then show ?thesis
    by (simp add: scoreInv_def scoreUpdate_def pipeQueuePass_def)
qed

lemma score_tickBody_mono:
  assumes "scoreInv pp s" "elapsedTime s \<le> ct"
  shows "score s \<le> score (tickBody pp ct s)"
proof -
  have "score s = length (filter (\<lambda>p. time p \<le> elapsedTime s \<and> passed p) (pipeQueue pp s))"
    using assms(1) by (simp add: scoreInv_def)
  also have "\<dots> \<le> length (filter (\<lambda>p. passed p = True)
                 (filter (\<lambda>p. time p \<le> ct) (map (updatePipe ct) (pipeQueue pp s))))"
    using assms(2) by (rule count_passed_mono)
  also have "\<dots> = score (tickBody pp ct s)"
    by (simp add: scoreUpdate_def pipeQueuePass_def pipeQueueUpdated_def)
  finally show ?thesis .
qed

lemma scoreInv_cong:
  "score s' = score s \<Longrightarrow> elapsedTime s' = elapsedTime s \<Longrightarrow> pipeRead s' = pipeRead s \<Longrightarrow>
   scoreInv pp s' = scoreInv pp s"
  by (simp add: scoreInv_def pipeQueue_def)

lemma scoreInv_initialState: "scoreInv (pipeProperties rows) (initialState t0)"
proof -
  have "filter (\<lambda>p. time p \<le> 0 \<and> passed p) (map mkPipe rows) = []"
    by (induction rows) (auto simp add: mkPipe_def Let_def)
  then show ?thesis
    by (simp add: scoreInv_def pipeQueue_def pipeProperties_def initialState_def)
qed

lemma scoreInv_initialRun: "scoreInv (pipeProperties rows) (st (initialRun t0 seed0))"
proof -
  have "filter (\<lambda>p. time p \<le> 0 \<and> passed p) (map mkPipe rows) = []"
    by (induction rows) (auto simp add: mkPipe_def Let_def)
  then show ?thesis
    by (simp add: scoreInv_def pipeQueue_def pipeProperties_def initialRun_def
        initialStateP_def pauseState_def)
qed

lemma tick_score_step:
  assumes "scoreInv pp s" "timeStart s + elapsedTime s \<le> now"
  shows "scoreInv pp (tick pp now s) \<and> score s \<le> score (tick pp now s) \<and>
         timeStart (tick pp now s) + elapsedTime (tick pp now s) \<le> now"
proof (cases "gameOver s \<or> score s = 20")
  case True
  then have "tick pp now s = s" by (rule tick_stopped)
  with assms show ?thesis by simp
next
  case False
  then have tk: "tick pp now s = tickBody pp (now - timeStart s) s"
    by (simp add: tick_running)
  have "elapsedTime s \<le> now - timeStart s"
    using assms(2) by simp
  with assms(1) have "score s \<le> score (tickBody pp (now - timeStart s) s)"
    by (rule score_tickBody_mono)
  then show ?thesis
    by (simp add: tk scoreInv_tickBody)
qed

lemma flap_score_step:
  "scoreInv pp (flap s) = scoreInv pp s" "score (flap s) = score s"
  "timeStart (flap s) = timeStart s" "elapsedTime (flap s) = elapsedTime s"
  by (simp_all add: flap_def scoreInv_def pipeQueue_def)

lemma ghost_score_step:
  "scoreInv pp (ghostReducer path t s) = scoreInv pp s"
  "score (ghostReducer path t s) = score s"
  "timeStart (ghostReducer path t s) = timeStart s"
  "elapsedTime (ghostReducer path t s) = elapsedTime s"
  by (simp_all add: ghostReducer_def Let_def scoreInv_def pipeQueue_def)

lemma run_Nil [simp]: "run pp path s [] = s"
  by (simp add: run_def)

lemma run_Cons [simp]: "run pp path s (ev # evs) = run pp path (applyEvent pp path s ev) evs"
  by (simp add: run_def)

lemma run_append: "run pp path s (evs @ evs') = run pp path (run pp path s evs) evs'"
  by (simp add: run_def)

lemma applyEvent_score_step:
  assumes "scoreInv pp s" "timeStart s + elapsedTime s \<le> lo" "monotoneClock lo (ev # es)"
  shows "\<exists>lo1. scoreInv pp (applyEvent pp path s ev) \<and>
           timeStart (applyEvent pp path s ev) + elapsedTime (applyEvent pp path s ev) \<le> lo1 \<and>
           monotoneClock lo1 es \<and> score s \<le> score (applyEvent pp path s ev)"
proof (cases ev)
  case (Tick now)
  from assms(3) Tick have lo: "lo \<le> now" and mc: "monotoneClock now es"
    by simp_all
  from assms(2) lo have "timeStart s + elapsedTime s \<le> now" by simp
  with assms(1) have "scoreInv pp (tick pp now s) \<and> score s \<le> score (tick pp now s) \<and>
         timeStart (tick pp now s) + elapsedTime (tick pp now s) \<le> now"
    by (rule tick_score_step)
  with mc Tick show ?thesis
    by (intro exI [of _ now]) simp
next
  case Flap
  with assms show ?thesis
    by (intro exI [of _ lo]) (simp add: flap_score_step)
next
  case (Ghost t)
  with assms show ?thesis
    by (intro exI [of _ lo]) (simp add: ghost_score_step)
qed

lemma run_score_split:
  "scoreInv pp s \<Longrightarrow> timeStart s + elapsedTime s \<le> lo \<Longrightarrow> monotoneClock lo (evs @ evs') \<Longrightarrow>
   \<exists>lo'. scoreInv pp (run pp path s evs) \<and>
         timeStart (run pp path s evs) + elapsedTime (run pp path s evs) \<le> lo' \<and>
         monotoneClock lo' evs' \<and> score s \<le> score (run pp path s evs)"
proof (induction evs arbitrary: s lo)
  case Nil
  then show ?case by auto
next
  case (Cons ev evs)
  let ?s = "applyEvent pp path s ev"
  from Cons.prems(3) have "monotoneClock lo (ev # (evs @ evs'))" by simp
  from applyEvent_score_step [OF Cons.prems(1) Cons.prems(2) this, of path]
  obtain lo1 where a: "scoreInv pp ?s" and b: "timeStart ?s + elapsedTime ?s \<le> lo1"
    and c: "monotoneClock lo1 (evs @ evs')" and d: "score s \<le> score ?s"
    by blast
  from Cons.IH [OF a b c] obtain lo' where
    "scoreInv pp (run pp path ?s evs)"
    "timeStart (run pp path ?s evs) + elapsedTime (run pp path ?s evs) \<le> lo'"
    "monotoneClock lo' evs'" "score ?s \<le> score (run pp path ?s evs)"
    by blast
  with d show ?case
    by (intro exI [of _ lo']) simp
qed

lemma run_score_mono:
  assumes "scoreInv pp s" "timeStart s + elapsedTime s \<le> lo" "monotoneClock lo (evs @ evs')"
  shows "score (run pp path s evs) \<le> score (run pp path s (evs @ evs'))"
proof -
  from run_score_split [OF assms] obtain lo' where
    a: "scoreInv pp (run pp path s evs)"
    and b: "timeStart (run pp path s evs) + elapsedTime (run pp path s evs) \<le> lo'"
    and c: "monotoneClock lo' evs'"
    by blast
  from c have c': "monotoneClock lo' (evs' @ [])" by simp
  from run_score_split [OF a b c']
  have "score (run pp path s evs) \<le> score (run pp path (run pp path s evs) evs')"
    by blast
  then show ?thesis by (simp add: run_append)
qed

lemma tickP_score_step:
  assumes "scoreInv pp s"
  shows "scoreInv pp (tickP pp gp s) \<and> score s \<le> score (tickP pp gp s)"
proof (cases "gameOver s \<or> score s = 20 \<or> paused s")
  case True
  then have "tickP pp gp s = s" by (rule tickP_stopped)
  with assms show ?thesis by simp
next
  case False
  let ?b = "tickBody pp (elapsedTime s + 16) s"
  from False have tk: "tickP pp gp s = ?b\<lparr> ghostBirbPos := ghostBirbPosP gp (elapsedTime s + 16) s \<rparr>"
    by (simp add: tickP_running)
  have "scoreInv pp (tickP pp gp s) = scoreInv pp ?b"
    unfolding tk by (rule scoreInv_cong) simp_all
  moreover have "score s \<le> score ?b"
    using assms by (rule score_tickBody_mono) simp
  ultimately show ?thesis
    by (simp add: tk scoreInv_tickBody)
qed

lemma stepP_score_step:
  assumes "scoreInv pp (st r)"
  shows "scoreInv pp (st (stepP pp gp r i)) \<and> score (st r) \<le> score (st (stepP pp gp r i))"
proof (cases i)
  case KeyP
  with assms show ?thesis
    by (simp add: pauseState_def scoreInv_def pipeQueue_def)
next
  case KeySpace
  with assms show ?thesis
    by (simp add: flap_score_step)
next
  case Clock
  with assms tickP_score_step [of pp "st r" gp] show ?thesis
    by simp
qed

lemma runP_Nil [simp]: "runP pp gp r [] = r"
  by (simp add: runP_def)

lemma runP_Cons [simp]: "runP pp gp r (i # ins) = runP pp gp (stepP pp gp r i) ins"
  by (simp add: runP_def)

lemma runP_append: "runP pp gp r (ins @ ins') = runP pp gp (runP pp gp r ins) ins'"
  by (simp add: runP_def)

lemma runP_score:
  "scoreInv pp (st r) \<Longrightarrow>
   scoreInv pp (st (runP pp gp r ins)) \<and> score (st r) \<le> score (st (runP pp gp r ins))"
proof (induction ins arbitrary: r)
  case Nil
  then show ?case by simp
next
  case (Cons i ins)
  from stepP_score_step [OF Cons.prems, of gp i]
  have a: "scoreInv pp (st (stepP pp gp r i))" and b: "score (st r) \<le> score (st (stepP pp gp r i))"
    by simp_all
  from Cons.IH [OF a] b show ?case by simp
qed

text \<open>
  C6. Within a run the score never decreases: in \<^verbatim>\<open>src/main.ts\<close> for every
  sequence of reducers whose ticks read a clock that does not go back, in the
  pause-capable revision for every sequence of inputs; the run starts in the initial state
  with the parsed schedule. A tick that is not stopped sets the score to the number of
  pipes that have spawned by the current time and carry \<open>passed\<close>; flap, ghost and pause
  reducers leave the score as it is.
\<close>

theorem score_monotone:
  "(monotoneClock t0 (evs @ evs') \<longrightarrow>
      score (run (pipeProperties rows) path (initialState t0) evs)
        \<le> score (run (pipeProperties rows) path (initialState t0) (evs @ evs'))) \<and>
   score (st (runP (pipeProperties rows) gp (initialRun t0 seed0) ins))
     \<le> score (st (runP (pipeProperties rows) gp (initialRun t0 seed0) (ins @ ins'))) \<and>
   (\<not> gameOver s \<and> score s \<noteq> 20 \<longrightarrow>
      score (tick pp now s) =
        length (filter (\<lambda>p. passed p = True)
          (filter (\<lambda>p. time p \<le> now - timeStart s)
             (map (updatePipe (now - timeStart s)) (pipeQueue pp s))))) \<and>
   score (flap s) = score s \<and>
   score (ghostReducer path t s) = score s \<and>
   score (pauseState b sp) = score sp"
proof -
  have a: "monotoneClock t0 (evs @ evs') \<longrightarrow>
      score (run (pipeProperties rows) path (initialState t0) evs)
        \<le> score (run (pipeProperties rows) path (initialState t0) (evs @ evs'))"
  proof
    assume mc: "monotoneClock t0 (evs @ evs')"
    have "timeStart (initialState t0) + elapsedTime (initialState t0) \<le> t0"
      by (simp add: initialState_def)
    with scoreInv_initialState [of rows t0] show
      "score (run (pipeProperties rows) path (initialState t0) evs)
        \<le> score (run (pipeProperties rows) path (initialState t0) (evs @ evs'))"
      using mc by (rule run_score_mono)
  qed
  have "scoreInv (pipeProperties rows)
          (st (runP (pipeProperties rows) gp (initialRun t0 seed0) ins))"
    using runP_score [OF scoreInv_initialRun] by blast
  from runP_score [OF this, of gp ins']
  have b: "score (st (runP (pipeProperties rows) gp (initialRun t0 seed0) ins))
     \<le> score (st (runP (pipeProperties rows) gp (initialRun t0 seed0) (ins @ ins')))"
    by (simp add: runP_append)
  have c: "\<not> gameOver s \<and> score s \<noteq> 20 \<longrightarrow>
      score (tick pp now s) =
        length (filter (\<lambda>p. passed p = True)
          (filter (\<lambda>p. time p \<le> now - timeStart s)
             (map (updatePipe (now - timeStart s)) (pipeQueue pp s))))"
    by (simp add: tick_running scoreUpdate_def pipeQueuePass_def pipeQueueUpdated_def)
  have d: "score (flap s) = score s" "score (ghostReducer path t s) = score s"
    "score (pauseState b sp) = score sp"
    by (simp_all add: flap_score_step ghost_score_step pauseState_def)
  from a b c d show ?thesis by blast
qed

theorem score_monotone_witness:
  "monotoneClock 0 ([Tick 16] @ [Tick 2400]) \<and>
   score (run (pipeProperties [(1 / 2, 1 / 4, 0)]) [] (initialState 0) [Tick 16]) = 0 \<and>
   score (run (pipeProperties [(1 / 2, 1 / 4, 0)]) [] (initialState 0) ([Tick 16] @ [Tick 2400])) = 1 \<and>
   score (run (pipeProperties [(1 / 2, 1 / 4, 0)]) [] (initialState 0) [Tick 16])
     \<le> score (run (pipeProperties [(1 / 2, 1 / 4, 0)]) [] (initialState 0) ([Tick 16] @ [Tick 2400])) \<and>
   \<not> gameOver (initialState 0) \<and> score (initialState 0) \<noteq> 20 \<and>
   score (tick (pipeProperties [(1 / 2, 1 / 4, 0)]) 2400 (initialState 0)) = 1"
proof -
  define pp where "pp = pipeProperties [(1 / 2, 1 / 4, 0)]"
  define s1 where "s1 = tickBody pp 16 (initialState 0)"
  have mc: "monotoneClock 0 ([Tick 16] @ [Tick 2400])"
    by simp
  have t1: "tick pp 16 (initialState 0) = s1"
    by (simp add: s1_def tick_def initialState_def)
  have q1: "pipeQueue pp s1 = [updatePipe 16 (mkPipe (1 / 2, 1 / 4, 0))]"
    by (simp add: s1_def pp_def pipeQueueUpdated_def pipeQueue_def pipeProperties_def
        initialState_def)
  have sc1: "score s1 = 0"
    by (simp add: s1_def pp_def scoreUpdate_def pipeQueuePass_def pipeQueueUpdated_def
        pipeQueue_def pipeProperties_def initialState_def pipe_consts Let_def)
  have go1: "\<not> gameOver s1"
    by (simp add: s1_def newGameOver_def newBirbLives_def initialState_def)
  have ts1: "timeStart s1 = 0"
    by (simp add: s1_def initialState_def)
  have t2: "tick pp 2400 s1 = tickBody pp 2400 s1"
    using go1 sc1 ts1 by (simp add: tick_def)
  have "scoreUpdate pp 2400 s1
      = length (filter (\<lambda>p. passed p = True)
          (filter (\<lambda>p. time p \<le> 2400) (map (updatePipe 2400) (pipeQueue pp s1))))"
    by (simp add: scoreUpdate_def pipeQueuePass_def pipeQueueUpdated_def)
  also have "\<dots> = 1"
    unfolding q1 by (simp add: pipe_consts Let_def)
  finally have sc2: "scoreUpdate pp 2400 s1 = 1" .
  have s0: "score (run pp [] (initialState 0) [Tick 16]) = 0"
    by (simp add: t1 sc1)
  have s1: "score (run pp [] (initialState 0) ([Tick 16] @ [Tick 2400])) = 1"
    by (simp add: t1 t2 sc2)
  have i: "\<not> gameOver (initialState 0) \<and> score (initialState 0) \<noteq> 20"
    by (simp add: initialState_def)
  from score_monotone [where ?t0.0 = 0 and evs = "[Tick 16]" and evs' = "[Tick 2400]"
      and rows = "[(1 / 2, 1 / 4, 0)]" and path = "[]" and s = "initialState 0" and pp = pp
      and now = 2400] mc i
  have le: "score (run pp [] (initialState 0) [Tick 16])
     \<le> score (run pp [] (initialState 0) ([Tick 16] @ [Tick 2400]))"
    and tk: "score (tick pp 2400 (initialState 0)) =
        length (filter (\<lambda>p. passed p = True)
          (filter (\<lambda>p. time p \<le> 2400 - timeStart (initialState 0))
             (map (updatePipe (2400 - timeStart (initialState 0)))
                (pipeQueue pp (initialState 0)))))"
    unfolding pp_def by blast+
  have "score (tick pp 2400 (initialState 0)) = 1"
    unfolding tk
    by (simp add: pp_def pipeQueue_def pipeProperties_def initialState_def pipe_consts Let_def)
  with mc s0 s1 le i show ?thesis
    unfolding pp_def by blast
qed

section \<open>Lives\<close>

lemma newBirbLives_eq:
  "newBirbLives pp ct s = (if collideFrame pp ct s then max 0 (birbLives s - 1) else birbLives s)"
  by (simp add: newBirbLives_def collideFrame_def max_def)

lemma tick_lives:
  "birbLives (tick pp now s) =
     (if \<not> gameOver s \<and> score s \<noteq> 20 \<and> collideFrame pp (now - timeStart s) s
      then max 0 (birbLives s - 1) else birbLives s)"
  by (simp add: tick_def newBirbLives_eq)

lemma tickP_lives:
  "birbLives (tickP pp gp s) =
     (if \<not> gameOver s \<and> score s \<noteq> 20 \<and> \<not> paused s \<and>
         collideFrame pp (elapsedTime s + TICK_RATE_MS) s
      then max 0 (birbLives s - 1) else birbLives s)"
  by (simp add: tickP_def Let_def newBirbLives_eq)

lemma other_lives:
  "birbLives (flap s) = birbLives s"
  "birbLives (ghostReducer path t s) = birbLives s"
  "birbLives (pauseState b sp) = birbLives sp"
  by (simp_all add: flap_def ghostReducer_def Let_def pauseState_def)

lemma applyEvent_lives:
  assumes "0 \<le> birbLives s"
  shows "0 \<le> birbLives (applyEvent pp path s ev) \<and> birbLives (applyEvent pp path s ev) \<le> birbLives s"
  using assms by (cases ev) (simp_all add: tick_lives other_lives)

lemma run_lives:
  "0 \<le> birbLives s \<Longrightarrow>
   0 \<le> birbLives (run pp path s evs) \<and> birbLives (run pp path s evs) \<le> birbLives s"
proof (induction evs arbitrary: s)
  case Nil
  then show ?case by simp
next
  case (Cons ev evs)
  from applyEvent_lives [OF Cons.prems, of pp path ev]
  have a: "0 \<le> birbLives (applyEvent pp path s ev)"
    and b: "birbLives (applyEvent pp path s ev) \<le> birbLives s"
    by simp_all
  from Cons.IH [OF a] b show ?case by simp
qed

lemma stepP_lives:
  assumes "0 \<le> birbLives (st r)"
  shows "0 \<le> birbLives (st (stepP pp gp r i)) \<and>
         birbLives (st (stepP pp gp r i)) \<le> birbLives (st r)"
  using assms by (cases i) (simp_all add: tickP_lives other_lives)

lemma runP_lives:
  "0 \<le> birbLives (st r) \<Longrightarrow>
   0 \<le> birbLives (st (runP pp gp r ins)) \<and> birbLives (st (runP pp gp r ins)) \<le> birbLives (st r)"
proof (induction ins arbitrary: r)
  case Nil
  then show ?case by simp
next
  case (Cons i ins)
  from stepP_lives [OF Cons.prems, of pp gp i]
  have a: "0 \<le> birbLives (st (stepP pp gp r i))"
    and b: "birbLives (st (stepP pp gp r i)) \<le> birbLives (st r)"
    by simp_all
  from Cons.IH [OF a] b show ?case by simp
qed

text \<open>
  C7. Within a run (of either revision, from the initial state with 3 lives) the lives are
  never negative and never increase. A tick that is not stopped and collides (first hit of
  a pipe, or top or floor of the canvas) takes exactly one life, not below 0; every other
  tick, and the flap, ghost and pause reducers, leave the lives unchanged.
\<close>

theorem lives_monotone:
  "0 \<le> birbLives (run pp path (initialState t0) evs) \<and>
   birbLives (run pp path (initialState t0) (evs @ evs'))
     \<le> birbLives (run pp path (initialState t0) evs) \<and>
   0 \<le> birbLives (st (runP pp gp (initialRun t0 seed0) ins)) \<and>
   birbLives (st (runP pp gp (initialRun t0 seed0) (ins @ ins')))
     \<le> birbLives (st (runP pp gp (initialRun t0 seed0) ins)) \<and>
   birbLives (tick pp now s) =
     (if \<not> gameOver s \<and> score s \<noteq> 20 \<and> collideFrame pp (now - timeStart s) s
      then max 0 (birbLives s - 1) else birbLives s) \<and>
   birbLives (tickP pp gp sp) =
     (if \<not> gameOver sp \<and> score sp \<noteq> 20 \<and> \<not> paused sp \<and>
         collideFrame pp (elapsedTime sp + TICK_RATE_MS) sp
      then max 0 (birbLives sp - 1) else birbLives sp) \<and>
   birbLives (flap s) = birbLives s \<and>
   birbLives (ghostReducer path t s) = birbLives s \<and>
   birbLives (pauseState b sp) = birbLives sp"
proof -
  have i: "0 \<le> birbLives (initialState t0)"
    by (simp add: initialState_def)
  have a: "0 \<le> birbLives (run pp path (initialState t0) evs)"
    using run_lives [OF i] by blast
  from run_lives [OF a, of pp path evs']
  have b: "birbLives (run pp path (initialState t0) (evs @ evs'))
     \<le> birbLives (run pp path (initialState t0) evs)"
    by (simp add: run_append)
  have j: "0 \<le> birbLives (st (initialRun t0 seed0))"
    by (simp add: initialRun_def pauseState_def initialStateP_def)
  have c: "0 \<le> birbLives (st (runP pp gp (initialRun t0 seed0) ins))"
    using runP_lives [OF j] by blast
  from runP_lives [OF c, of pp gp ins']
  have d: "birbLives (st (runP pp gp (initialRun t0 seed0) (ins @ ins')))
     \<le> birbLives (st (runP pp gp (initialRun t0 seed0) ins))"
    by (simp add: runP_append)
  from a b c d tick_lives [of pp now s] tickP_lives [of pp gp sp]
    other_lives(1) [of s] other_lives(2) [of path t s] other_lives(3) [of b sp]
  show ?thesis by blast
qed

lemma collideFrame_beforeGapHit: "collideFrame gapPipes 1936 beforeGapHit"
  by (simp add: collideFrame_def firstHitThisPipe_def outsideGapY_def beforeGapHit_fields
      gap_pipe_1936)

theorem lives_monotone_witness:
  "beforeGapHit = run gapPipes [] (initialState 0) [Tick 1904, Tick 1920] \<and>
   birbLives beforeGapHit = 3 \<and>
   collideFrame gapPipes (1936 - timeStart beforeGapHit) beforeGapHit \<and>
   birbLives (tick gapPipes 1936 beforeGapHit) = 2 \<and>
   birbLives (run gapPipes [] (initialState 0) ([Tick 1904, Tick 1920] @ [Tick 1936]))
     \<le> birbLives (run gapPipes [] (initialState 0) [Tick 1904, Tick 1920])"
proof -
  have d: "beforeGapHit = run gapPipes [] (initialState 0) [Tick 1904, Tick 1920]"
    by (rule beforeGapHit_def)
  have cf: "collideFrame gapPipes (1936 - timeStart beforeGapHit) beforeGapHit"
    by (simp add: beforeGapHit_fields collideFrame_beforeGapHit)
  from lives_monotone [where pp = gapPipes and now = 1936 and s = beforeGapHit and path = "[]"
      and ?t0.0 = 0 and evs = "[Tick 1904, Tick 1920]" and evs' = "[Tick 1936]"]
  have l: "birbLives (tick gapPipes 1936 beforeGapHit) =
     (if \<not> gameOver beforeGapHit \<and> score beforeGapHit \<noteq> 20 \<and>
         collideFrame gapPipes (1936 - timeStart beforeGapHit) beforeGapHit
      then max 0 (birbLives beforeGapHit - 1) else birbLives beforeGapHit)"
    and m: "birbLives (run gapPipes [] (initialState 0) ([Tick 1904, Tick 1920] @ [Tick 1936]))
     \<le> birbLives (run gapPipes [] (initialState 0) [Tick 1904, Tick 1920])"
    by blast+
  have t: "birbLives (tick gapPipes 1936 beforeGapHit) = 2"
    using cf by (simp add: l beforeGapHit_fields)
  have b: "birbLives beforeGapHit = 3"
    by (simp add: beforeGapHit_fields)
  from d b cf t m show ?thesis by blast
qed

end
